theory Spec2Isabelle
  imports Complex_Main "HOL-Library.Word" "HOL-Library.Multiset"
    "HOL-Library.Char_ord" "HOL-Library.List_Lexorder"
begin

unbundle bit_operations_syntax

chapter \<open>The program\<close>

section \<open>Identifier generator (package types)\<close>

text \<open>
  \<^verbatim>\<open>hex.EncodeToString\<close> of the Go standard library: two lower-case digits per byte, the
  high nibble first, read from the table \<^verbatim>\<open>"0123456789abcdef"\<close>.
\<close>

definition hextable :: string where
  "hextable = ''0123456789abcdef''"

fun EncodeToString :: "8 word list \<Rightarrow> string" where
  "EncodeToString [] = []"
| "EncodeToString (b # bs) =
     hextable ! unat (drop_bit 4 b) # hextable ! unat (b AND 0x0f) # EncodeToString bs"

text \<open>
  \<^verbatim>\<open>rand.Read(bytes)\<close> fills the slice from the system's entropy source. The source is a
  parameter: \<open>rnd i\<close> is the \<open>i\<close>-th byte it delivers to this call.
\<close>

definition rand_Read :: "(nat \<Rightarrow> 8 word) \<Rightarrow> nat \<Rightarrow> 8 word list" where
  "rand_Read rnd n = map rnd [0..<n]"

text \<open>
  \<^verbatim>\<open>
  func GenerateID(prefix string) string {
      bytes := make([]byte, 4)
      rand.Read(bytes)
      return prefix + "-" + hex.EncodeToString(bytes)[:4]
  }
  \<close>
  The slice expression \<^verbatim>\<open>[:4]\<close> is in range: the encoding of 4 bytes has 8 characters.
\<close>

definition GenerateID :: "(nat \<Rightarrow> 8 word) \<Rightarrow> string \<Rightarrow> string" where
  "GenerateID rnd prefix =
     (let bytes = rand_Read rnd 4
      in prefix @ ''-'' @ take 4 (EncodeToString bytes))"

definition example_entropy :: "nat \<Rightarrow> 8 word" where
  "example_entropy i = [0x7f, 0x2a, 0x9c, 0x01] ! (i mod 4)"

section \<open>Data model (package types)\<close>

text \<open>
  A \<^verbatim>\<open>time.Time\<close> is modelled by the two things the program observes of it: the instant
  it denotes, counted in nanoseconds from Go's zero time (January 1, year 1, 00:00:00
  UTC), and the text its \<^verbatim>\<open>String\<close> method returns. The text shows the wall clock of the
  time's location, then the offset and name of the zone, and ends with the monotonic
  clock reading when the time has one: two times can denote one instant and differ in
  their text. \<^verbatim>\<open>IsZero\<close> is the instant being 0.
\<close>

record time =
  instant :: int
  Time_String :: string

definition IsZero :: "time \<Rightarrow> bool" where
  "IsZero t = (instant t = 0)"

definition zero_time :: time where
  "zero_time = \<lparr>instant = 0, Time_String = ''0001-01-01 00:00:00 +0000 UTC''\<rparr>"

text \<open>
  A Go slice \<^verbatim>\<open>[]string\<close> is \<open>None\<close> when it is nil and \<open>Some xs\<close> otherwise;
  \<open>Some []\<close> is the empty slice that is not nil. \<^verbatim>\<open>len\<close> is 0 for both.
\<close>

type_synonym strings = "string list option"


text \<open>
  \<^verbatim>\<open>InsightType\<close>, \<^verbatim>\<open>ThreadStatus\<close> and \<^verbatim>\<open>DependencyType\<close> are declared as
  \<^verbatim>\<open>string\<close> types with named constants; a value of such a type can be any string.
\<close>

type_synonym InsightType = string

definition InsightHypothesis :: InsightType where "InsightHypothesis = ''hypothesis''"
definition InsightDiscovery :: InsightType where "InsightDiscovery = ''discovery''"
definition InsightQuestion :: InsightType where "InsightQuestion = ''question''"
definition InsightFeedback :: InsightType where "InsightFeedback = ''feedback''"
definition InsightPivot :: InsightType where "InsightPivot = ''pivot''"
definition InsightDecision :: InsightType where "InsightDecision = ''decision''"

text \<open>
  \<^verbatim>\<open>
  type InsightSource struct {
      Type         string   `json:"type"`
      Ref          string   `json:"ref,omitempty"`
      Participants []string `json:"participants,omitempty"`
  }
  \<close>
\<close>

record InsightSource =
  Source_Type :: string
  Source_Ref :: string
  Source_Participants :: strings

text \<open>
  \<^verbatim>\<open>
  type Insight struct {
      ID         string        `json:"id"`
      Timestamp  time.Time     `json:"timestamp"`
      Content    string        `json:"content"`
      Summary    string        `json:"summary"`
      Type       InsightType   `json:"type"`
      Confidence float32       `json:"confidence"`
      Source     InsightSource `json:"source"`
      ThreadID   string        `json:"thread_id,omitempty"`
      AuthorID   string        `json:"author_id,omitempty"`
      EndorsedBy []string      `json:"endorsed_by,omitempty"`
      Tags       []string      `json:"labels,omitempty"`
      CreatedBy  string        `json:"created_by,omitempty"`
      CreatedAt  time.Time     `json:"created_at"`
  }
  \<close>
  The confidence is a \<^verbatim>\<open>float32\<close>; the model holds the number a finite \<^verbatim>\<open>float32\<close>
  denotes (NaN and the infinities are outside the model).
\<close>

record Insight =
  ID :: string
  Timestamp :: time
  Content :: string
  Summary :: string
  Type :: InsightType
  Confidence :: real
  Source :: InsightSource
  ThreadID :: string
  AuthorID :: string
  EndorsedBy :: strings
  Tags :: strings
  CreatedBy :: string
  CreatedAt :: time

type_synonym ThreadStatus = string

definition ThreadActive :: ThreadStatus where "ThreadActive = ''active''"
definition ThreadConcluded :: ThreadStatus where "ThreadConcluded = ''concluded''"
definition ThreadAbandoned :: ThreadStatus where "ThreadAbandoned = ''abandoned''"

text \<open>
  \<^verbatim>\<open>
  type InsightThread struct {
      ID                   string       `json:"id"`
      Title                string       `json:"title"`
      Status               ThreadStatus `json:"status"`
      CurrentUnderstanding string       `json:"current_understanding,omitempty"`
      CreatedAt            time.Time    `json:"created_at"`
      UpdatedAt            time.Time    `json:"updated_at"`
  }
  \<close>
\<close>

record InsightThread =
  Thread_ID :: string
  Thread_Title :: string
  Thread_Status :: ThreadStatus
  Thread_CurrentUnderstanding :: string
  Thread_CreatedAt :: time
  Thread_UpdatedAt :: time

type_synonym DependencyType = string

definition DepBuildsOn :: DependencyType where "DepBuildsOn = ''builds-on''"
definition DepSupersedes :: DependencyType where "DepSupersedes = ''supersedes''"
definition DepContradicts :: DependencyType where "DepContradicts = ''contradicts''"
definition DepSpawns :: DependencyType where "DepSpawns = ''spawns''"
definition DepInformedBy :: DependencyType where "DepInformedBy = ''informed-by''"

text \<open>
  \<^verbatim>\<open>
  type Dependency struct {
      From      string         `json:"from"`
      To        string         `json:"to"`
      Type      DependencyType `json:"type"`
      CreatedAt time.Time      `json:"created_at"`
  }
  \<close>
\<close>

record Dependency =
  Dep_From :: string
  Dep_To :: string
  Dep_Type :: DependencyType
  Dep_CreatedAt :: time





text \<open>
  The constructors \<^verbatim>\<open>NewInsight\<close>, \<^verbatim>\<open>NewThread\<close> and \<^verbatim>\<open>NewDependency\<close>; the entropy
  source and the reading of the clock (\<^verbatim>\<open>time.Now()\<close>) are parameters.
\<close>

definition NewInsight :: "(nat \<Rightarrow> 8 word) \<Rightarrow> time \<Rightarrow> string \<Rightarrow> InsightType \<Rightarrow> Insight" where
  "NewInsight rnd now content insightType =
     \<lparr>ID = GenerateID rnd ''ins'', Timestamp = now, Content = content, Summary = [],
      Type = insightType, Confidence = 1,
      Source = \<lparr>Source_Type = ''human'', Source_Ref = [], Source_Participants = None\<rparr>,
      ThreadID = [], AuthorID = [], EndorsedBy = None, Tags = None, CreatedBy = [],
      CreatedAt = now\<rparr>"

definition NewThread :: "(nat \<Rightarrow> 8 word) \<Rightarrow> time \<Rightarrow> string \<Rightarrow> InsightThread" where
  "NewThread rnd now title =
     \<lparr>Thread_ID = GenerateID rnd ''thr'', Thread_Title = title, Thread_Status = ThreadActive,
      Thread_CurrentUnderstanding = [], Thread_CreatedAt = now, Thread_UpdatedAt = now\<rparr>"

definition NewDependency :: "time \<Rightarrow> string \<Rightarrow> string \<Rightarrow> DependencyType \<Rightarrow> Dependency" where
  "NewDependency now from to depType =
     \<lparr>Dep_From = from, Dep_To = to, Dep_Type = depType, Dep_CreatedAt = now\<rparr>"

section \<open>JSON documents (package encoding/json)\<close>

text \<open>
  The Go standard library's \<^verbatim>\<open>encoding/json\<close> is modelled at the level of JSON documents.
  A number carries its literal text, as the decoder holds it until it knows the type of
  the field it is stored into.
\<close>

datatype json =
    JNull
  | JBool bool
  | JNum string
  | JStr string
  | JArr "json list"
  | JObj "(string \<times> json) list"

datatype json_error =
    SyntaxError
  | UnmarshalTypeError string
  | TimeParseError string
  | TimeMarshalError

subsection \<open>Strings that are not valid UTF-8\<close>

text \<open>
  A Go string is a sequence of bytes. \<^verbatim>\<open>utf8.DecodeRuneInString\<close> reads the encoding of one
  code point from the start of a string; \<open>rune_size\<close> is the number of bytes of that
  encoding, and 0 when the string is empty or does not start with a valid encoding (the
  library's \<^verbatim>\<open>RuneError\<close> of width 1). The ranges are those of the library's table: no
  overlong forms, no surrogates, nothing above U+10FFFF.
\<close>

definition byte :: "char \<Rightarrow> nat" where
  "byte c = of_char c"

definition in_range :: "nat \<Rightarrow> nat \<Rightarrow> char \<Rightarrow> bool" where
  "in_range lo hi c = (lo \<le> byte c \<and> byte c \<le> hi)"

text \<open>
  The bytes after the first: one in the range the first byte asks for, then \<open>n\<close>
  continuation bytes.
\<close>

fun tail_ok :: "nat \<Rightarrow> nat \<Rightarrow> nat \<Rightarrow> string \<Rightarrow> bool" where
  "tail_ok lo hi n [] = False"
| "tail_ok lo hi n (b # rest) =
     (in_range lo hi b \<and> n \<le> length rest \<and> list_all (in_range 0x80 0xBF) (take n rest))"

definition rune_size :: "string \<Rightarrow> nat" where
  "rune_size s =
     (case s of
        [] \<Rightarrow> 0
      | a # rest \<Rightarrow>
          if byte a < 0x80 then 1
          else if in_range 0xC2 0xDF a then (if tail_ok 0x80 0xBF 0 rest then 2 else 0)
          else if byte a = 0xE0 then (if tail_ok 0xA0 0xBF 1 rest then 3 else 0)
          else if in_range 0xE1 0xEC a \<or> in_range 0xEE 0xEF a
            then (if tail_ok 0x80 0xBF 1 rest then 3 else 0)
          else if byte a = 0xED then (if tail_ok 0x80 0x9F 1 rest then 3 else 0)
          else if byte a = 0xF0 then (if tail_ok 0x90 0xBF 2 rest then 4 else 0)
          else if in_range 0xF1 0xF3 a then (if tail_ok 0x80 0xBF 2 rest then 4 else 0)
          else if byte a = 0xF4 then (if tail_ok 0x80 0x8F 2 rest then 4 else 0)
          else 0)"

text \<open>\<^verbatim>\<open>utf8.ValidString\<close>: the string is a sequence of valid encodings.\<close>

function ValidString :: "string \<Rightarrow> bool" where
  "ValidString s =
     (if s = [] then True
      else if rune_size s = 0 then False
      else ValidString (drop (rune_size s) s))"
  by pat_completeness auto
termination
  by (relation "measure length") auto

declare ValidString.simps [simp del]

text \<open>
  \<^verbatim>\<open>encoding/json\<close> writes a string with every byte that starts no valid encoding
  replaced by the escape \<^verbatim>\<open>\ufffd\<close>; read back, the escape is the replacement character
  U+FFFD, the bytes EF BF BD. \<open>written_string s\<close> is the string that the JSON text written
  for \<open>s\<close> denotes.
\<close>

definition replacement_character :: string where
  "replacement_character = [CHR 0xEF, CHR 0xBF, CHR 0xBD]"

function written_string :: "string \<Rightarrow> string" where
  "written_string s =
     (if s = [] then []
      else if rune_size s = 0 then replacement_character @ written_string (tl s)
      else take (rune_size s) s @ written_string (drop (rune_size s) s))"
  by pat_completeness auto
termination
  by (relation "measure length") auto

declare written_string.simps [simp del]

subsection \<open>Slices of strings\<close>

text \<open>
  \<^verbatim>\<open>json.Marshal\<close> of a \<^verbatim>\<open>[]string\<close>: \<^verbatim>\<open>null\<close> for the nil slice, an array of strings
  otherwise. It has no failing case.
\<close>

definition Marshal_strings :: "strings \<Rightarrow> json" where
  "Marshal_strings s =
     (case s of None \<Rightarrow> JNull | Some xs \<Rightarrow> JArr (map (\<lambda>x. JStr (written_string x)) xs))"

text \<open>
  \<^verbatim>\<open>json.Unmarshal\<close> of a document into a string: \<^verbatim>\<open>null\<close> leaves the target as it is,
  a string is stored, anything else is a type error naming the field.
\<close>

fun Unmarshal_string :: "string \<Rightarrow> json \<Rightarrow> string \<Rightarrow> json_error + string" where
  "Unmarshal_string field JNull old = Inr old"
| "Unmarshal_string field (JStr s) old = Inr s"
| "Unmarshal_string field _ old = Inl (UnmarshalTypeError field)"

fun Unmarshal_elems :: "string \<Rightarrow> json list \<Rightarrow> json_error + string list" where
  "Unmarshal_elems field [] = Inr []"
| "Unmarshal_elems field (j # js) =
     (case Unmarshal_string field j [] of
        Inl e \<Rightarrow> Inl e
      | Inr s \<Rightarrow> (case Unmarshal_elems field js of Inl e \<Rightarrow> Inl e | Inr ss \<Rightarrow> Inr (s # ss)))"

text \<open>
  \<^verbatim>\<open>json.Unmarshal\<close> into a \<^verbatim>\<open>[]string\<close>: \<^verbatim>\<open>null\<close> leaves the slice as it is; an array
  replaces it by a slice that is not nil, with one element for each member (a \<^verbatim>\<open>null\<close>
  member is the empty string).
\<close>

fun Unmarshal_strings :: "string \<Rightarrow> json \<Rightarrow> strings \<Rightarrow> json_error + strings" where
  "Unmarshal_strings field JNull old = Inr old"
| "Unmarshal_strings field (JArr js) old =
     (case Unmarshal_elems field js of Inl e \<Rightarrow> Inl e | Inr ss \<Rightarrow> Inr (Some ss))"
| "Unmarshal_strings field _ old = Inl (UnmarshalTypeError field)"

section \<open>Relational store (package store)\<close>

text \<open>
  The database behind \<^verbatim>\<open>Store.db\<close> is modelled by the rows of its tables, each table in
  the order of insertion. A \<^verbatim>\<open>TEXT\<close> column that holds a JSON document is modelled by the
  document; \<open>None\<close> is SQL \<^verbatim>\<open>NULL\<close>. The driver binds a \<^verbatim>\<open>time.Time\<close> as the text its
  \<^verbatim>\<open>String\<close> method returns, so a \<^verbatim>\<open>DATETIME\<close> column holds that text, and SQLite
  compares and orders the column as text, byte by byte. The model keeps the time that was
  written in the row: its text is the content of the column, and reading the column
  gives the time back. The columns follow the schema the migrations create. The full-text index that triggers
  derive from the insights table, and failures of the database file itself, are outside
  the model.
\<close>

record insight_row =
  col_id :: string
  col_timestamp :: time
  col_content :: string
  col_summary :: string
  col_type :: string
  col_confidence :: real
  col_source_type :: string
  col_source_ref :: string
  col_source_participants :: "json option"
  col_thread_id :: "string option"
  col_author_id :: "string option"
  col_endorsed_by :: "json option"
  col_tags :: "json option"
  col_created_by :: string
  col_created_at :: time

record store =
  threads_tbl :: "InsightThread list"
  insights_tbl :: "insight_row list"
  dependencies_tbl :: "Dependency list"
  config_tbl :: "(string \<times> string) list"

text \<open>The errors of the SQLite driver that the schema's constraints can raise.\<close>

datatype sql_error =
    UniqueConstraintFailed string
  | ForeignKeyConstraintFailed

text \<open>
  The errors the store returns, one constructor for each \<^verbatim>\<open>fmt.Errorf\<close> format of the
  functions modelled here; an argument of type \<open>sql_error\<close> or \<open>json_error\<close> is the
  error wrapped by \<^verbatim>\<open>%w\<close>.
\<close>

datatype store_error =
    InsertInsightFailed sql_error
  | UpdateInsightFailed sql_error
  | DeleteInsightFailed sql_error
  | InsightNotFound string
  | UnmarshalSourceParticipantsFailed json_error
  | UnmarshalTagsFailed json_error
  | UnmarshalEndorsedByFailed json_error
  | InsertThreadFailed sql_error
  | DependencyAlreadyExists string string DependencyType
  | InsertDependencyFailed sql_error

subsection \<open>The SQL statements\<close>

text \<open>
  \<^verbatim>\<open>INSERT INTO insights (...) VALUES (...)\<close>. The table has \<^verbatim>\<open>id TEXT PRIMARY KEY\<close> and
  \<^verbatim>\<open>FOREIGN KEY (thread_id) REFERENCES threads(id) ON DELETE SET NULL\<close>, and the store
  opens the database with \<^verbatim>\<open>PRAGMA foreign_keys = ON\<close>. The key's uniqueness is checked
  when the row is written, the foreign key when the statement ends.
\<close>

definition foreign_key_ok :: "store \<Rightarrow> insight_row \<Rightarrow> bool" where
  "foreign_key_ok s r =
     (case col_thread_id r of None \<Rightarrow> True | Some t \<Rightarrow> t \<in> set (map Thread_ID (threads_tbl s)))"

definition exec_insert_insight :: "store \<Rightarrow> insight_row \<Rightarrow> sql_error + store" where
  "exec_insert_insight s r =
     (if col_id r \<in> set (map col_id (insights_tbl s)) then Inl (UniqueConstraintFailed ''insights.id'')
      else if \<not> foreign_key_ok s r then Inl ForeignKeyConstraintFailed
      else Inr (s\<lparr>insights_tbl := insights_tbl s @ [r]\<rparr>))"

text \<open>
  \<^verbatim>\<open>UPDATE insights SET ... WHERE id = ?\<close>: every column but the key is replaced in the
  rows with that key. The result carries the number of rows affected.
\<close>

definition exec_update_insight :: "store \<Rightarrow> insight_row \<Rightarrow> sql_error + nat \<times> store" where
  "exec_update_insight s r =
     (let hit = filter (\<lambda>x. col_id x = col_id r) (insights_tbl s)
      in if hit \<noteq> [] \<and> \<not> foreign_key_ok s r then Inl ForeignKeyConstraintFailed
         else Inr (length hit,
                   s\<lparr>insights_tbl := map (\<lambda>x. if col_id x = col_id r then r else x) (insights_tbl s)\<rparr>))"

text \<open>\<^verbatim>\<open>DELETE FROM insights WHERE id = ?\<close>\<close>

definition exec_delete_insight :: "store \<Rightarrow> string \<Rightarrow> sql_error + nat \<times> store" where
  "exec_delete_insight s id' =
     Inr (length (filter (\<lambda>x. col_id x = id') (insights_tbl s)),
          s\<lparr>insights_tbl := filter (\<lambda>x. col_id x \<noteq> id') (insights_tbl s)\<rparr>)"

text \<open>\<^verbatim>\<open>INSERT INTO threads (...) VALUES (...)\<close>, with \<^verbatim>\<open>id TEXT PRIMARY KEY\<close>.\<close>

definition exec_insert_thread :: "store \<Rightarrow> InsightThread \<Rightarrow> sql_error + store" where
  "exec_insert_thread s t =
     (if Thread_ID t \<in> set (map Thread_ID (threads_tbl s)) then Inl (UniqueConstraintFailed ''threads.id'')
      else Inr (s\<lparr>threads_tbl := threads_tbl s @ [t]\<rparr>))"

text \<open>
  \<^verbatim>\<open>INSERT INTO dependencies (from_id, to_id, type, created_at) VALUES (?, ?, ?, ?)\<close>, with
  \<^verbatim>\<open>PRIMARY KEY (from_id, to_id, type)\<close> and no foreign key.
\<close>

definition same_edge :: "Dependency \<Rightarrow> Dependency \<Rightarrow> bool" where
  "same_edge d e = (Dep_From e = Dep_From d \<and> Dep_To e = Dep_To d \<and> Dep_Type e = Dep_Type d)"

definition exec_insert_dependency :: "store \<Rightarrow> Dependency \<Rightarrow> sql_error + store" where
  "exec_insert_dependency s d =
     (if list_ex (same_edge d) (dependencies_tbl s)
      then Inl (UniqueConstraintFailed
                  ''dependencies.from_id, dependencies.to_id, dependencies.type'')
      else Inr (s\<lparr>dependencies_tbl := dependencies_tbl s @ [d]\<rparr>))"

subsection \<open>Insights\<close>

text \<open>
  The row \<^verbatim>\<open>CreateInsight\<close> and \<^verbatim>\<open>UpdateInsight\<close> bind to their statement: the three slices
  are marshalled (which cannot fail for a \<^verbatim>\<open>[]string\<close>), and an empty thread or author
  identifier is bound as \<^verbatim>\<open>nil\<close>.
\<close>

definition nullable :: "string \<Rightarrow> string option" where
  "nullable x = (if x = [] then None else Some x)"

definition insight_args :: "Insight \<Rightarrow> insight_row" where
  "insight_args insight =
     (let sourceParticipants = Marshal_strings (Source_Participants (Source insight));
          tags = Marshal_strings (Tags insight);
          approvedBy = Marshal_strings (EndorsedBy insight);
          threadID = nullable (ThreadID insight);
          authorID = nullable (AuthorID insight)
      in \<lparr>col_id = ID insight, col_timestamp = Timestamp insight, col_content = Content insight,
          col_summary = Summary insight, col_type = Type insight,
          col_confidence = Confidence insight, col_source_type = Source_Type (Source insight),
          col_source_ref = Source_Ref (Source insight),
          col_source_participants = Some sourceParticipants,
          col_thread_id = threadID, col_author_id = authorID,
          col_endorsed_by = Some approvedBy, col_tags = Some tags,
          col_created_by = CreatedBy insight, col_created_at = CreatedAt insight\<rparr>)"

definition CreateInsight :: "store \<Rightarrow> Insight \<Rightarrow> store_error option \<times> store" where
  "CreateInsight s insight =
     (case exec_insert_insight s (insight_args insight) of
        Inl err \<Rightarrow> (Some (InsertInsightFailed err), s)
      | Inr s' \<Rightarrow> (None, s'))"

definition UpdateInsight :: "store \<Rightarrow> Insight \<Rightarrow> store_error option \<times> store" where
  "UpdateInsight s insight =
     (case exec_update_insight s (insight_args insight) of
        Inl err \<Rightarrow> (Some (UpdateInsightFailed err), s)
      | Inr (rows, s') \<Rightarrow>
          if rows = 0 then (Some (InsightNotFound (ID insight)), s') else (None, s'))"

definition DeleteInsight :: "store \<Rightarrow> string \<Rightarrow> store_error option \<times> store" where
  "DeleteInsight s id' =
     (case exec_delete_insight s id' of
        Inl err \<Rightarrow> (Some (DeleteInsightFailed err), s)
      | Inr (rows, s') \<Rightarrow>
          if rows = 0 then (Some (InsightNotFound id'), s') else (None, s'))"

text \<open>
  Reading a row back (\<^verbatim>\<open>rows.Scan\<close> and the code after it in \<^verbatim>\<open>GetInsight\<close> and
  \<^verbatim>\<open>ListInsights\<close>): a \<^verbatim>\<open>NULL\<close> thread or author leaves the field empty; a JSON column
  that is \<^verbatim>\<open>NULL\<close> leaves its slice nil, otherwise it is unmarshalled, and a failure there
  fails the read.
\<close>

definition unmarshal_column :: "string \<Rightarrow> json option \<Rightarrow> json_error + strings" where
  "unmarshal_column field c =
     (case c of None \<Rightarrow> Inr None | Some doc \<Rightarrow> Unmarshal_strings field doc None)"

definition scan_insight :: "insight_row \<Rightarrow> store_error + Insight" where
  "scan_insight r =
     (case unmarshal_column ''source_participants'' (col_source_participants r) of
        Inl e \<Rightarrow> Inl (UnmarshalSourceParticipantsFailed e)
      | Inr participants \<Rightarrow>
     (case unmarshal_column ''tags'' (col_tags r) of
        Inl e \<Rightarrow> Inl (UnmarshalTagsFailed e)
      | Inr tags \<Rightarrow>
     (case unmarshal_column ''endorsed_by'' (col_endorsed_by r) of
        Inl e \<Rightarrow> Inl (UnmarshalEndorsedByFailed e)
      | Inr endorsedBy \<Rightarrow>
          Inr \<lparr>ID = col_id r, Timestamp = col_timestamp r, Content = col_content r,
               Summary = col_summary r, Type = col_type r, Confidence = col_confidence r,
               Source = \<lparr>Source_Type = col_source_type r, Source_Ref = col_source_ref r,
                         Source_Participants = participants\<rparr>,
               ThreadID = (case col_thread_id r of None \<Rightarrow> [] | Some t \<Rightarrow> t),
               AuthorID = (case col_author_id r of None \<Rightarrow> [] | Some a \<Rightarrow> a),
               EndorsedBy = endorsedBy, Tags = tags,
               CreatedBy = col_created_by r, CreatedAt = col_created_at r\<rparr>)))"

text \<open>The loop over \<^verbatim>\<open>rows.Next()\<close>: the first row that fails to read fails the query.\<close>

fun scan_rows :: "('r \<Rightarrow> store_error + 'a) \<Rightarrow> 'r list \<Rightarrow> store_error + 'a list" where
  "scan_rows scan [] = Inr []"
| "scan_rows scan (r # rs) =
     (case scan r of
        Inl e \<Rightarrow> Inl e
      | Inr x \<Rightarrow> (case scan_rows scan rs of Inl e \<Rightarrow> Inl e | Inr xs \<Rightarrow> Inr (x # xs)))"

definition GetInsight :: "store \<Rightarrow> string \<Rightarrow> store_error + Insight" where
  "GetInsight s id' =
     (case filter (\<lambda>r. col_id r = id') (insights_tbl s) of
        [] \<Rightarrow> Inl (InsightNotFound id')
      | r # _ \<Rightarrow> scan_insight r)"

text \<open>
  \<^verbatim>\<open>ListInsights\<close> builds its query from \<^verbatim>\<open>WHERE 1=1\<close>, adding
  \<^verbatim>\<open>AND thread_id = ?\<close> when \<^verbatim>\<open>threadID != ""\<close>, \<^verbatim>\<open>AND type = ?\<close> when
  \<^verbatim>\<open>insightType != ""\<close> and \<^verbatim>\<open>AND timestamp >= ?\<close> when \<^verbatim>\<open>!since.IsZero()\<close>, and ends
  with \<^verbatim>\<open>ORDER BY timestamp DESC\<close>. A comparison with a \<^verbatim>\<open>NULL\<close> thread is not true.
  The comparison with \<^verbatim>\<open>since\<close> and the ordering are those of the texts of the times.
  SQL leaves the order of rows with equal timestamps open; the model puts them in
  reverse table order.
\<close>

definition list_where :: "string \<Rightarrow> InsightType \<Rightarrow> time \<Rightarrow> insight_row \<Rightarrow> bool" where
  "list_where threadID insightType since r =
     ((threadID = [] \<or> col_thread_id r = Some threadID)
      \<and> (insightType = [] \<or> col_type r = insightType)
      \<and> (IsZero since \<or> Time_String since \<le> Time_String (col_timestamp r)))"

definition order_by_timestamp_desc :: "insight_row list \<Rightarrow> insight_row list" where
  "order_by_timestamp_desc rs = rev (sort_key (\<lambda>r. Time_String (col_timestamp r)) rs)"

definition ListInsights ::
  "store \<Rightarrow> string \<Rightarrow> InsightType \<Rightarrow> time \<Rightarrow> store_error + Insight list" where
  "ListInsights s threadID insightType since =
     scan_rows scan_insight
       (order_by_timestamp_desc (filter (list_where threadID insightType since) (insights_tbl s)))"

text \<open>
  The filters in the specification's words, on insights rather than rows: a thread
  filter, a type filter and a since-timestamp, each of which matches everything when it
  is absent (the empty string, the zero time).
\<close>

definition satisfies_filters :: "string \<Rightarrow> InsightType \<Rightarrow> time \<Rightarrow> Insight \<Rightarrow> bool" where
  "satisfies_filters threadFilter typeFilter sinceTimestamp i =
     ((threadFilter = [] \<or> ThreadID i = threadFilter)
      \<and> (typeFilter = [] \<or> Type i = typeFilter)
      \<and> (IsZero sinceTimestamp \<or> instant sinceTimestamp \<le> instant (Timestamp i)))"

subsection \<open>Threads and dependencies\<close>

definition CreateThread :: "store \<Rightarrow> InsightThread \<Rightarrow> store_error option \<times> store" where
  "CreateThread s thread =
     (case exec_insert_thread s thread of
        Inl err \<Rightarrow> (Some (InsertThreadFailed err), s)
      | Inr s' \<Rightarrow> (None, s'))"

text \<open>
  \<^verbatim>\<open>AddDependency\<close> turns a driver error whose text contains
  \<^verbatim>\<open>"UNIQUE constraint failed"\<close> into \<^verbatim>\<open>"dependency already exists: %s -> %s (%s)"\<close>.
\<close>

definition AddDependency :: "store \<Rightarrow> Dependency \<Rightarrow> store_error option \<times> store" where
  "AddDependency s dep =
     (case exec_insert_dependency s dep of
        Inl (UniqueConstraintFailed _) \<Rightarrow>
          (Some (DependencyAlreadyExists (Dep_From dep) (Dep_To dep) (Dep_Type dep)), s)
      | Inl err \<Rightarrow> (Some (InsertDependencyFailed err), s)
      | Inr s' \<Rightarrow> (None, s'))"

text \<open>
  \<^verbatim>\<open>SELECT ... FROM dependencies WHERE from_id = ? ORDER BY created_at\<close> and its mirror
  image on \<^verbatim>\<open>to_id\<close>. The order is that of the texts of the creation times; rows with
  equal texts stay in table order.
\<close>

definition GetDependencies :: "store \<Rightarrow> string \<Rightarrow> store_error + Dependency list" where
  "GetDependencies s fromID =
     Inr (sort_key (\<lambda>d. Time_String (Dep_CreatedAt d)) (filter (\<lambda>d. Dep_From d = fromID) (dependencies_tbl s)))"

definition GetDependents :: "store \<Rightarrow> string \<Rightarrow> store_error + Dependency list" where
  "GetDependents s toID =
     Inr (sort_key (\<lambda>d. Time_String (Dep_CreatedAt d)) (filter (\<lambda>d. Dep_To d = toID) (dependencies_tbl s)))"

section \<open>Schema migrator (package store)\<close>

text \<open>
  The schema of the database: its tables with their columns, its indexes and its
  triggers. A statement of the data definition language is a value holding what its SQL
  text declares. The shadow tables that the \<^verbatim>\<open>fts5\<close> module keeps for a virtual table
  are not part of the model.
\<close>

record column =
  column_name :: string
  column_decl :: string
  column_default :: "string option"

record db_table =
  table_name :: string
  table_columns :: "column list"
  table_constraints :: "string list"
  table_module :: "string option"

record db_index =
  index_name :: string
  index_table :: string
  index_columns :: "string list"

record db_trigger =
  trigger_name :: string
  trigger_table :: string
  trigger_event :: string
  trigger_body :: string

record database =
  db_tables :: "db_table list"
  db_indexes :: "db_index list"
  db_triggers :: "db_trigger list"

datatype statement =
    CreateTableIfNotExists db_table
  | CreateIndexIfNotExists db_index
  | CreateTriggerIfNotExists db_trigger
  | AlterTableAddColumn string column

datatype ddl_error =
    NoSuchTable string
  | NoSuchColumn string
  | DuplicateColumnName string
  | NameInUse string

definition find_table :: "database \<Rightarrow> string \<Rightarrow> db_table option" where
  "find_table db name = find (\<lambda>t. table_name t = name) (db_tables db)"

definition has_index :: "database \<Rightarrow> string \<Rightarrow> bool" where
  "has_index db name = (name \<in> set (map index_name (db_indexes db)))"

definition has_trigger :: "database \<Rightarrow> string \<Rightarrow> bool" where
  "has_trigger db name = (name \<in> set (map trigger_name (db_triggers db)))"

text \<open>
  \<^verbatim>\<open>SELECT COUNT(*) FROM pragma_table_info(table) WHERE name = column\<close>: the number of
  columns of that name in the table, 0 when there is no such table.
\<close>

definition count_columns :: "database \<Rightarrow> string \<Rightarrow> string \<Rightarrow> nat" where
  "count_columns db tbl col =
     (case find_table db tbl of
        None \<Rightarrow> 0
      | Some t \<Rightarrow> length (filter (\<lambda>c. column_name c = col) (table_columns t)))"

text \<open>
  Executing one statement. \<^verbatim>\<open>CREATE ... IF NOT EXISTS\<close> does nothing when an object of
  that kind and name exists. An index and a trigger need their table, an index also its
  columns; \<^verbatim>\<open>ALTER TABLE ... ADD COLUMN\<close> needs the table and fails when the table has a
  column of that name.
\<close>

fun exec :: "database \<Rightarrow> statement \<Rightarrow> ddl_error + database" where
  "exec db (CreateTableIfNotExists t) =
     (if find_table db (table_name t) \<noteq> None then Inr db
      else if has_index db (table_name t) then Inl (NameInUse (table_name t))
      else Inr (db\<lparr>db_tables := db_tables db @ [t]\<rparr>))"
| "exec db (CreateIndexIfNotExists i) =
     (case find_table db (index_table i) of
        None \<Rightarrow> Inl (NoSuchTable (index_table i))
      | Some t \<Rightarrow>
          if has_index db (index_name i) then Inr db
          else if find_table db (index_name i) \<noteq> None then Inl (NameInUse (index_name i))
          else
            (case filter (\<lambda>c. c \<notin> set (map column_name (table_columns t))) (index_columns i) of
               [] \<Rightarrow> Inr (db\<lparr>db_indexes := db_indexes db @ [i]\<rparr>)
             | c # _ \<Rightarrow> Inl (NoSuchColumn c)))"
| "exec db (CreateTriggerIfNotExists g) =
     (if find_table db (trigger_table g) = None then Inl (NoSuchTable (trigger_table g))
      else if has_trigger db (trigger_name g) then Inr db
      else Inr (db\<lparr>db_triggers := db_triggers db @ [g]\<rparr>))"
| "exec db (AlterTableAddColumn tbl c) =
     (if find_table db tbl = None then Inl (NoSuchTable tbl)
      else if 0 < count_columns db tbl (column_name c) then Inl (DuplicateColumnName (column_name c))
      else Inr (db\<lparr>db_tables :=
                  map (\<lambda>t. if table_name t = tbl
                            then t\<lparr>table_columns := table_columns t @ [c]\<rparr> else t)
                      (db_tables db)\<rparr>))"

subsection \<open>The statements of the migrations\<close>

definition col :: "string \<Rightarrow> string \<Rightarrow> column" where
  "col name decl = \<lparr>column_name = name, column_decl = decl, column_default = None\<rparr>"

text \<open>The column of \<^verbatim>\<open>ADD COLUMN endorsed_by TEXT DEFAULT '[]'\<close>.\<close>

definition endorsed_by_column :: column where
  "endorsed_by_column =
     \<lparr>column_name = ''endorsed_by'', column_decl = ''TEXT'', column_default = Some ''[]''\<rparr>"

definition threads_table :: db_table where
  "threads_table =
     \<lparr>table_name = ''threads'',
      table_columns =
        [col ''id'' ''TEXT PRIMARY KEY'', col ''title'' ''TEXT NOT NULL'',
         col ''status'' ''TEXT NOT NULL'', col ''current_understanding'' ''TEXT'',
         col ''created_at'' ''DATETIME NOT NULL'', col ''updated_at'' ''DATETIME NOT NULL''],
      table_constraints = [], table_module = None\<rparr>"

definition insights_table :: db_table where
  "insights_table =
     \<lparr>table_name = ''insights'',
      table_columns =
        [col ''id'' ''TEXT PRIMARY KEY'', col ''timestamp'' ''DATETIME NOT NULL'',
         col ''content'' ''TEXT NOT NULL'', col ''summary'' ''TEXT'',
         col ''type'' ''TEXT NOT NULL'', col ''confidence'' ''REAL NOT NULL'',
         col ''source_type'' ''TEXT NOT NULL'', col ''source_ref'' ''TEXT'',
         col ''source_participants'' ''TEXT'', col ''thread_id'' ''TEXT'',
         col ''tags'' ''TEXT'', col ''created_by'' ''TEXT'',
         col ''created_at'' ''DATETIME NOT NULL''],
      table_constraints =
        [''FOREIGN KEY (thread_id) REFERENCES threads(id) ON DELETE SET NULL''],
      table_module = None\<rparr>"

definition dependencies_table :: db_table where
  "dependencies_table =
     \<lparr>table_name = ''dependencies'',
      table_columns =
        [col ''from_id'' ''TEXT NOT NULL'', col ''to_id'' ''TEXT NOT NULL'',
         col ''type'' ''TEXT NOT NULL'', col ''created_at'' ''DATETIME NOT NULL''],
      table_constraints = [''PRIMARY KEY (from_id, to_id, type)''],
      table_module = None\<rparr>"

definition insights_fts_table :: db_table where
  "insights_fts_table =
     \<lparr>table_name = ''insights_fts'',
      table_columns = [col ''id'' [], col ''content'' [], col ''summary'' []],
      table_constraints = [''content=insights'', ''content_rowid=rowid''],
      table_module = Some ''fts5''\<rparr>"

definition config_table :: db_table where
  "config_table =
     \<lparr>table_name = ''config'',
      table_columns = [col ''key'' ''TEXT PRIMARY KEY'', col ''value'' ''TEXT NOT NULL''],
      table_constraints = [], table_module = None\<rparr>"

definition index_on :: "string \<Rightarrow> string \<Rightarrow> string \<Rightarrow> statement" where
  "index_on name tbl column =
     CreateIndexIfNotExists \<lparr>index_name = name, index_table = tbl, index_columns = [column]\<rparr>"

definition trigger_on :: "string \<Rightarrow> string \<Rightarrow> string \<Rightarrow> statement" where
  "trigger_on name event body =
     CreateTriggerIfNotExists
       \<lparr>trigger_name = name, trigger_table = ''insights'', trigger_event = event,
        trigger_body = body\<rparr>"

text \<open>The slice \<^verbatim>\<open>indexes\<close> of \<^verbatim>\<open>migrateInitialSchema\<close>, in its order.\<close>

definition indexes :: "statement list" where
  "indexes =
     [index_on ''idx_insights_thread_id'' ''insights'' ''thread_id'',
      index_on ''idx_insights_type'' ''insights'' ''type'',
      index_on ''idx_insights_timestamp'' ''insights'' ''timestamp'',
      index_on ''idx_insights_created_at'' ''insights'' ''created_at'',
      index_on ''idx_threads_status'' ''threads'' ''status'',
      index_on ''idx_dependencies_from'' ''dependencies'' ''from_id'',
      index_on ''idx_dependencies_to'' ''dependencies'' ''to_id'',
      CreateTableIfNotExists insights_fts_table,
      trigger_on ''insights_fts_insert'' ''AFTER INSERT''
        ''INSERT INTO insights_fts(rowid, id, content, summary) VALUES (new.rowid, new.id, new.content, new.summary);'',
      trigger_on ''insights_fts_delete'' ''AFTER DELETE''
        ''DELETE FROM insights_fts WHERE rowid = old.rowid;'',
      trigger_on ''insights_fts_update'' ''AFTER UPDATE''
        ''UPDATE insights_fts SET id = new.id, content = new.content, summary = new.summary WHERE rowid = new.rowid;'']"

subsection \<open>The migrations\<close>

datatype migration_error =
    CreateThreadsTableFailed ddl_error
  | CreateInsightsTableFailed ddl_error
  | CreateDependenciesTableFailed ddl_error
  | CreateIndexFailed ddl_error
  | AddAuthorIDColumnFailed ddl_error
  | CreateAuthorIDIndexFailed ddl_error
  | AddEndorsedByColumnFailed ddl_error
  | CreateConfigTableFailed ddl_error
  | MigrationFailed string migration_error

text \<open>The loop \<^verbatim>\<open>for _, idx := range indexes\<close>: the first failing statement ends it.\<close>

fun exec_each :: "database \<Rightarrow> statement list \<Rightarrow> ddl_error + database" where
  "exec_each db [] = Inr db"
| "exec_each db (idx # rest) =
     (case exec db idx of Inl err \<Rightarrow> Inl err | Inr db' \<Rightarrow> exec_each db' rest)"

definition migrateInitialSchema :: "database \<Rightarrow> migration_error + database" where
  "migrateInitialSchema db =
     (case exec db (CreateTableIfNotExists threads_table) of
        Inl err \<Rightarrow> Inl (CreateThreadsTableFailed err)
      | Inr db1 \<Rightarrow>
     (case exec db1 (CreateTableIfNotExists insights_table) of
        Inl err \<Rightarrow> Inl (CreateInsightsTableFailed err)
      | Inr db2 \<Rightarrow>
     (case exec db2 (CreateTableIfNotExists dependencies_table) of
        Inl err \<Rightarrow> Inl (CreateDependenciesTableFailed err)
      | Inr db3 \<Rightarrow>
     (case exec_each db3 indexes of
        Inl err \<Rightarrow> Inl (CreateIndexFailed err)
      | Inr db4 \<Rightarrow> Inr db4))))"

definition migrateInsightsAuthorID :: "database \<Rightarrow> migration_error + database" where
  "migrateInsightsAuthorID db =
     (let count = count_columns db ''insights'' ''author_id''
      in if count > 0 then Inr db
         else
           (case exec db (AlterTableAddColumn ''insights'' (col ''author_id'' ''TEXT'')) of
              Inl err \<Rightarrow> Inl (AddAuthorIDColumnFailed err)
            | Inr db1 \<Rightarrow>
           (case exec db1 (index_on ''idx_insights_author_id'' ''insights'' ''author_id'') of
              Inl err \<Rightarrow> Inl (CreateAuthorIDIndexFailed err)
            | Inr db2 \<Rightarrow> Inr db2)))"

definition migrateInsightsEndorsedBy :: "database \<Rightarrow> migration_error + database" where
  "migrateInsightsEndorsedBy db =
     (let count = count_columns db ''insights'' ''endorsed_by''
      in if count > 0 then Inr db
         else
           (case exec db (AlterTableAddColumn ''insights''
                            endorsed_by_column) of
              Inl err \<Rightarrow> Inl (AddEndorsedByColumnFailed err)
            | Inr db1 \<Rightarrow> Inr db1))"

definition migrateConfigTable :: "database \<Rightarrow> migration_error + database" where
  "migrateConfigTable db =
     (case exec db (CreateTableIfNotExists config_table) of
        Inl err \<Rightarrow> Inl (CreateConfigTableFailed err)
      | Inr db1 \<Rightarrow> Inr db1)"

text \<open>
  \<^verbatim>\<open>
  var migrationsList = []Migration{
      {"001_initial_schema", migrateInitialSchema},
      {"002_insights_author_id", migrateInsightsAuthorID},
      {"003_insights_endorsed_by", migrateInsightsEndorsedBy},
      {"004_config_table", migrateConfigTable},
  }
  func RunMigrations(db *sql.DB) error {
      for _, migration := range migrationsList {
          if err := migration.Func(db); err != nil {
              return fmt.Errorf("migration %s failed: %w", migration.Name, err)
          }
      }
      return nil
  }
  \<close>
\<close>

definition migrationsList :: "(string \<times> (database \<Rightarrow> migration_error + database)) list" where
  "migrationsList =
     [(''001_initial_schema'', migrateInitialSchema),
      (''002_insights_author_id'', migrateInsightsAuthorID),
      (''003_insights_endorsed_by'', migrateInsightsEndorsedBy),
      (''004_config_table'', migrateConfigTable)]"

fun run_each ::
  "database \<Rightarrow> (string \<times> (database \<Rightarrow> migration_error + database)) list
   \<Rightarrow> migration_error + database" where
  "run_each db [] = Inr db"
| "run_each db (migration # rest) =
     (case snd migration db of
        Inl err \<Rightarrow> Inl (MigrationFailed (fst migration) err)
      | Inr db' \<Rightarrow> run_each db' rest)"

definition RunMigrations :: "database \<Rightarrow> migration_error + database" where
  "RunMigrations db = run_each db migrationsList"

definition empty_database :: database where
  "empty_database = \<lparr>db_tables = [], db_indexes = [], db_triggers = []\<rparr>"

text \<open>
  What a statement sets up is in place: the thing a \<^verbatim>\<open>CREATE ... IF NOT EXISTS\<close> looks
  for (with the table an index or trigger is on), or the column an \<^verbatim>\<open>ALTER TABLE\<close> adds.
\<close>

fun established :: "database \<Rightarrow> statement \<Rightarrow> bool" where
  "established db (CreateTableIfNotExists t) = (find_table db (table_name t) \<noteq> None)"
| "established db (CreateIndexIfNotExists i) =
     (find_table db (index_table i) \<noteq> None \<and> has_index db (index_name i))"
| "established db (CreateTriggerIfNotExists g) =
     (find_table db (trigger_table g) \<noteq> None \<and> has_trigger db (trigger_name g))"
| "established db (AlterTableAddColumn tbl c) = (0 < count_columns db tbl (column_name c))"

fun is_create :: "statement \<Rightarrow> bool" where
  "is_create (AlterTableAddColumn tbl c) = False"
| "is_create _ = True"

text \<open>Every statement the four migrations can execute, in the order of execution.\<close>

definition migration_statements :: "statement list" where
  "migration_statements =
     [CreateTableIfNotExists threads_table, CreateTableIfNotExists insights_table,
      CreateTableIfNotExists dependencies_table]
     @ indexes
     @ [AlterTableAddColumn ''insights'' (col ''author_id'' ''TEXT''),
        AlterTableAddColumn ''insights'' endorsed_by_column,
        CreateTableIfNotExists config_table]"

text \<open>The schema of a database created from nothing by the migrations.\<close>

definition migrated_database :: database where
  "migrated_database =
     \<lparr>db_tables =
        [threads_table,
         insights_table\<lparr>table_columns := table_columns insights_table
            @ [col ''author_id'' ''TEXT'', endorsed_by_column]\<rparr>,
         dependencies_table, insights_fts_table, config_table],
      db_indexes =
        [\<lparr>index_name = ''idx_insights_thread_id'', index_table = ''insights'', index_columns = [''thread_id'']\<rparr>,
         \<lparr>index_name = ''idx_insights_type'', index_table = ''insights'', index_columns = [''type'']\<rparr>,
         \<lparr>index_name = ''idx_insights_timestamp'', index_table = ''insights'', index_columns = [''timestamp'']\<rparr>,
         \<lparr>index_name = ''idx_insights_created_at'', index_table = ''insights'', index_columns = [''created_at'']\<rparr>,
         \<lparr>index_name = ''idx_threads_status'', index_table = ''threads'', index_columns = [''status'']\<rparr>,
         \<lparr>index_name = ''idx_dependencies_from'', index_table = ''dependencies'', index_columns = [''from_id'']\<rparr>,
         \<lparr>index_name = ''idx_dependencies_to'', index_table = ''dependencies'', index_columns = [''to_id'']\<rparr>,
         \<lparr>index_name = ''idx_insights_author_id'', index_table = ''insights'', index_columns = [''author_id'']\<rparr>],
      db_triggers =
        [\<lparr>trigger_name = ''insights_fts_insert'', trigger_table = ''insights'',
          trigger_event = ''AFTER INSERT'',
          trigger_body = ''INSERT INTO insights_fts(rowid, id, content, summary) VALUES (new.rowid, new.id, new.content, new.summary);''\<rparr>,
         \<lparr>trigger_name = ''insights_fts_delete'', trigger_table = ''insights'',
          trigger_event = ''AFTER DELETE'',
          trigger_body = ''DELETE FROM insights_fts WHERE rowid = old.rowid;''\<rparr>,
         \<lparr>trigger_name = ''insights_fts_update'', trigger_table = ''insights'',
          trigger_event = ''AFTER UPDATE'',
          trigger_body = ''UPDATE insights_fts SET id = new.id, content = new.content, summary = new.summary WHERE rowid = new.rowid;''\<rparr>]\<rparr>"

section \<open>Graph traversal (package main)\<close>

subsection \<open>Unresolved questions\<close>

text \<open>
  \<^verbatim>\<open>
  func filterUnresolved(st interface {
      GetDependents(string) ([]*types.Dependency, error)
  }, insights []*types.Insight) ([]*types.Insight, error) {
      var unresolved []*types.Insight
      for _, insight := range insights {
          deps, err := st.GetDependents(insight.ID)
          if err != nil { return nil, err }
          isSuperseded := false
          for _, dep := range deps {
              if dep.Type == types.DepSupersedes { isSuperseded = true; break }
          }
          if !isSuperseded { unresolved = append(unresolved, insight) }
      }
      return unresolved, nil
  }
  \<close>
  The interface value \<^verbatim>\<open>st\<close> is its one method, a function from an identifier to an
  error or a list of dependencies. The accumulator is the variable \<^verbatim>\<open>unresolved\<close>.
\<close>

fun filterUnresolved_loop ::
  "(string \<Rightarrow> store_error + Dependency list) \<Rightarrow> Insight list \<Rightarrow> Insight list
   \<Rightarrow> store_error + Insight list" where
  "filterUnresolved_loop st [] unresolved = Inr unresolved"
| "filterUnresolved_loop st (insight # insights) unresolved =
     (case st (ID insight) of
        Inl err \<Rightarrow> Inl err
      | Inr deps \<Rightarrow>
          (let isSuperseded = list_ex (\<lambda>dep. Dep_Type dep = DepSupersedes) deps
           in filterUnresolved_loop st insights
                (if \<not> isSuperseded then unresolved @ [insight] else unresolved)))"

definition filterUnresolved ::
  "(string \<Rightarrow> store_error + Dependency list) \<Rightarrow> Insight list \<Rightarrow> store_error + Insight list" where
  "filterUnresolved st insights = filterUnresolved_loop st insights []"

subsection \<open>Trace\<close>

text \<open>
  \<^verbatim>\<open>
  func IsBeadID(id string) bool {
      return len(id) > 5 && (id[:5] == "bead-" || id[:3] == "bd-")
  }
  \<close>
\<close>

definition IsBeadID :: "string \<Rightarrow> bool" where
  "IsBeadID id' = (length id' > 5 \<and> (take 5 id' = ''bead-'' \<or> take 3 id' = ''bd-''))"

record chainItem =
  insightID :: string
  relationFromPrev :: string

text \<open>
  The inner loop of \<^verbatim>\<open>traceChain\<close>: the first dependency of type builds-on or supersedes
  gives \<^verbatim>\<open>prevID\<close> and \<^verbatim>\<open>relation\<close>; both stay empty when there is none.
\<close>

fun first_relation :: "Dependency list \<Rightarrow> string \<times> string" where
  "first_relation [] = ([], [])"
| "first_relation (dep # deps) =
     (if Dep_Type dep = DepBuildsOn \<or> Dep_Type dep = DepSupersedes
      then (Dep_From dep, Dep_Type dep)
      else first_relation deps)"

text \<open>
  \<^verbatim>\<open>
  for current != "" && !visited[current] {
      visited[current] = true
      deps, err := s.GetDependents(current)
      if err != nil { break }
      var prevID string
      var relation string
      for _, dep := range deps { ... }
      chain = append([]chainItem{{insightID: current, relationFromPrev: relation}}, chain...)
      current = prevID
  }
  return chain
  \<close>
  The loop may run forever for an interface value that keeps answering with new
  identifiers, so it is a partial function: \<open>None\<close> is the loop that does not end.
\<close>

partial_function (option) traceChain_loop ::
  "(string \<Rightarrow> store_error + Dependency list) \<Rightarrow> string \<Rightarrow> string set \<Rightarrow> chainItem list
   \<Rightarrow> chainItem list option" where
  "traceChain_loop s current visited chain =
     (if current \<noteq> [] \<and> current \<notin> visited then
        (case s current of
           Inl err \<Rightarrow> Some chain
         | Inr deps \<Rightarrow>
             traceChain_loop s (fst (first_relation deps)) (insert current visited)
               (\<lparr>insightID = current, relationFromPrev = snd (first_relation deps)\<rparr> # chain))
      else Some chain)"

definition traceChain ::
  "string \<Rightarrow> (string \<rightharpoonup> Insight) \<Rightarrow> (string \<Rightarrow> store_error + Dependency list)
   \<Rightarrow> chainItem list option" where
  "traceChain startID insightMap s = traceChain_loop s startID {} []"

text \<open>
  \<^verbatim>\<open>runTrace\<close> prints, for every item of a chain whose insight is in the map, a line for the
  insight and then a line for the edge that leaves it: the relation of the next item, or
  \<^verbatim>\<open>spawns\<close> and the bead for the last item. The printed text is modelled by the insight
  and the edge annotation of each pair of lines.
\<close>

datatype annotation = Relation string | SpawnsTo string

fun print_chain ::
  "(string \<rightharpoonup> Insight) \<Rightarrow> string \<Rightarrow> chainItem list \<Rightarrow> (Insight \<times> annotation) list" where
  "print_chain insightMap beadID [] = []"
| "print_chain insightMap beadID (item # rest) =
     (case insightMap (insightID item) of
        None \<Rightarrow> print_chain insightMap beadID rest
      | Some ins \<Rightarrow>
          (ins, (case rest of
                   [] \<Rightarrow> SpawnsTo beadID
                 | nxt # _ \<Rightarrow> Relation (relationFromPrev nxt)))
          # print_chain insightMap beadID rest)"

datatype trace_error = InvalidBeadID string | ListInsightsFailed store_error

datatype trace_report =
    NoSpawningInsights string
  | TraceFor string "(Insight \<times> annotation) list list"

text \<open>
  The map from identifier to insight, filled in list order, and the identifiers of the
  insights with a \<^verbatim>\<open>spawns\<close> dependency to the bead; an insight whose dependencies cannot be
  read is skipped.
\<close>

definition build_insightMap :: "Insight list \<Rightarrow> (string \<rightharpoonup> Insight)" where
  "build_insightMap allInsights = fold (\<lambda>ins m. m(ID ins \<mapsto> ins)) allInsights Map.empty"

definition spawning_of :: "store \<Rightarrow> string \<Rightarrow> Insight \<Rightarrow> string list" where
  "spawning_of s beadID ins =
     (case GetDependencies s (ID ins) of
        Inl err \<Rightarrow> []
      | Inr deps \<Rightarrow>
          map (\<lambda>dep. ID ins) (filter (\<lambda>dep. Dep_To dep = beadID \<and> Dep_Type dep = DepSpawns) deps))"

fun trace_each ::
  "store \<Rightarrow> (string \<rightharpoonup> Insight) \<Rightarrow> string \<Rightarrow> string list
   \<Rightarrow> (Insight \<times> annotation) list list option" where
  "trace_each s insightMap beadID [] = Some []"
| "trace_each s insightMap beadID (spawnID # spawnIDs) =
     (case traceChain spawnID insightMap (GetDependents s) of
        None \<Rightarrow> None
      | Some chain \<Rightarrow>
          (case trace_each s insightMap beadID spawnIDs of
             None \<Rightarrow> None
           | Some out \<Rightarrow> Some (print_chain insightMap beadID chain # out)))"

text \<open>
  \<^verbatim>\<open>runTrace\<close> on an open store. The result is \<open>None\<close> when a walk does not end, an
  error when the command fails, and otherwise what it prints.
\<close>

definition runTrace :: "store \<Rightarrow> string \<Rightarrow> (trace_error + trace_report) option" where
  "runTrace s beadID =
     (if \<not> IsBeadID beadID then Some (Inl (InvalidBeadID beadID))
      else
        (case ListInsights s [] [] zero_time of
           Inl err \<Rightarrow> Some (Inl (ListInsightsFailed err))
         | Inr allInsights \<Rightarrow>
             (let insightMap = build_insightMap allInsights;
                  spawningInsights = concat (map (spawning_of s beadID) allInsights)
              in if spawningInsights = [] then Some (Inr (NoSpawningInsights beadID))
                 else
                   (case trace_each s insightMap beadID spawningInsights of
                      None \<Rightarrow> None
                    | Some out \<Rightarrow> Some (Inr (TraceFor beadID out))))))"

section \<open>Log codec (package jsonl)\<close>

subsection \<open>The library: JSON text, times, files and the line scanner\<close>


text \<open>
  A path of the file system has no file but can get one, or cannot be opened or created
  (no directory, no permission), or has a file with its bytes.
\<close>

datatype path_state = Missing | Unavailable | Contents string

type_synonym filesystem = "string \<Rightarrow> path_state"

definition newline :: char where
  "newline = CHR 0x0A"

definition carriage_return :: char where
  "carriage_return = CHR 0x0D"

text \<open>
  \<^verbatim>\<open>bufio.Scanner\<close> with the split function \<^verbatim>\<open>bufio.ScanLines\<close> and its default buffer:
  a token is a line without its end-of-line marker (a newline, with one carriage return
  before it dropped); a last line without newline is a token when it is not empty. The
  buffer grows to \<^verbatim>\<open>MaxScanTokenSize\<close> bytes and no further, so a line of that many bytes
  or more stops the scanner with \<^verbatim>\<open>ErrTooLong\<close>, after the tokens before it.
\<close>

definition MaxScanTokenSize :: nat where
  "MaxScanTokenSize = 64 * 1024"

datatype scan_error = ErrTooLong

definition dropCR :: "string \<Rightarrow> string" where
  "dropCR data = (if data \<noteq> [] \<and> last data = carriage_return then butlast data else data)"

function ScanLines :: "string \<Rightarrow> string list \<times> scan_error option" where
  "ScanLines data =
     (if data = [] then ([], None)
      else
        (let line = takeWhile (\<lambda>c. c \<noteq> newline) data
         in if MaxScanTokenSize \<le> length line then ([], Some ErrTooLong)
            else
              (case ScanLines (drop (Suc (length line)) data) of
                 (tokens, err) \<Rightarrow> (dropCR line # tokens, err))))"
  by pat_completeness auto
termination
  by (relation "measure length") auto

declare ScanLines.simps [simp del]

subsection \<open>Structs to documents\<close>








subsection \<open>Documents to structs\<close>

text \<open>
  \<^verbatim>\<open>json.Unmarshal\<close> into a struct: the members of an object are stored one after the
  other into the field whose tag matches the key, case folded (here: ASCII letters); a
  key that matches no tag is skipped; \<^verbatim>\<open>null\<close> leaves the target as it is; a value of the
  wrong kind is an error. When a document has several faults, the model reports the
  first.
\<close>

definition ascii_lower :: "char \<Rightarrow> char" where
  "ascii_lower c =
     (if 65 \<le> (of_char c :: nat) \<and> (of_char c :: nat) \<le> 90 then char_of (of_char c + 32 :: nat) else c)"

definition foldName :: "string \<Rightarrow> string" where
  "foldName key = map ascii_lower key"












subsection \<open>Export and import\<close>

datatype jsonl_error =
    CreateFileFailed string
  | EncodeInsightFailed json_error
  | EncodeThreadFailed json_error
  | EncodeDependencyFailed json_error
  | UnsupportedDataType
  | OpenFileFailed string
  | DecodeFailed nat json_error
  | ReadFileFailed string scan_error
  | ImportInsightsFailed jsonl_error
  | ImportThreadsFailed jsonl_error
  | ImportDependenciesFailed jsonl_error







text \<open>
  \<^verbatim>\<open>
  for scanner.Scan() {
      lineNum++
      line := scanner.Bytes()
      if len(line) == 0 { continue }
      item := factory()
      if err := json.Unmarshal(line, item); err != nil {
          return nil, fmt.Errorf("failed to decode JSON at line %d: %w", lineNum, err)
      }
      items = append(items, item)
  }
  \<close>
  over the tokens the scanner delivers. The parameter \<open>unmarshal\<close> is the factory and
  \<^verbatim>\<open>json.Unmarshal\<close> together: from a line to an error or the item filled in.
\<close>

fun readJSONL_loop ::
  "(string \<Rightarrow> json_error + 'r) \<Rightarrow> string list \<Rightarrow> nat \<Rightarrow> 'r list \<Rightarrow> jsonl_error + 'r list" where
  "readJSONL_loop unmarshal [] lineNum items = Inr items"
| "readJSONL_loop unmarshal (line # rest) lineNum items =
     (if length line = 0 then readJSONL_loop unmarshal rest (lineNum + 1) items
      else
        (case unmarshal line of
           Inl err \<Rightarrow> Inl (DecodeFailed (lineNum + 1) err)
         | Inr item \<Rightarrow> readJSONL_loop unmarshal rest (lineNum + 1) (items @ [item])))"

text \<open>
  \<^verbatim>\<open>readJSONL\<close>: \<^verbatim>\<open>os.Open\<close>, the loop, and after it the check of \<^verbatim>\<open>scanner.Err()\<close>.
\<close>

definition readJSONL ::
  "(string \<Rightarrow> json_error + 'r) \<Rightarrow> string \<Rightarrow> filesystem \<Rightarrow> jsonl_error + 'r list" where
  "readJSONL unmarshal filePath fs =
     (case fs filePath of
        Contents data \<Rightarrow>
          (case ScanLines data of
             (tokens, scanner_err) \<Rightarrow>
               (case readJSONL_loop unmarshal tokens 0 [] of
                  Inl err \<Rightarrow> Inl err
                | Inr items \<Rightarrow>
                    (case scanner_err of
                       Some err \<Rightarrow> Inl (ReadFileFailed filePath err)
                     | None \<Rightarrow> Inr items)))
      | _ \<Rightarrow> Inl (OpenFileFailed filePath))"




subsection \<open>The conditions of a round trip\<close>

text \<open>
  A text that the scanner delivers as one token, unchanged: it is not empty, holds no
  newline, does not end in a carriage return, and is shorter than the scanner's buffer.
\<close>

definition one_line :: "string \<Rightarrow> bool" where
  "one_line s =
     (s \<noteq> [] \<and> newline \<notin> set s \<and> last s \<noteq> carriage_return \<and> length s < MaxScanTokenSize)"




text \<open>The strings of a value are all valid UTF-8.\<close>

definition ValidStrings :: "strings \<Rightarrow> bool" where
  "ValidStrings v = (case v of None \<Rightarrow> True | Some xs \<Rightarrow> list_all ValidString xs)"







section \<open>Example data\<close>

text \<open>
  Times of the day 2024-01-15, which starts 738899 days after the zero time: \<open>utc_time h m\<close>
  is \<open>h:m\<close> on the clock of UTC, and \<open>east_time h m\<close> is \<open>h:m\<close> on a clock two hours ahead
  of UTC (a time parsed from a text with the offset \<^verbatim>\<open>+02:00\<close>), which is the instant of
  \<open>utc_time (h - 2) m\<close>.
\<close>

definition two_digits :: "nat \<Rightarrow> string" where
  "two_digits n = [''0123456789'' ! (n div 10), ''0123456789'' ! (n mod 10)]"

definition utc_time :: "nat \<Rightarrow> nat \<Rightarrow> time" where
  "utc_time h m =
     \<lparr>instant = (738899 * 86400 + int h * 3600 + int m * 60) * 1000000000,
      Time_String = ''2024-01-15 '' @ two_digits h @ '':'' @ two_digits m @ '':00 +0000 UTC''\<rparr>"

definition east_time :: "nat \<Rightarrow> nat \<Rightarrow> time" where
  "east_time h m =
     \<lparr>instant = (738899 * 86400 + (int h - 2) * 3600 + int m * 60) * 1000000000,
      Time_String = ''2024-01-15 '' @ two_digits h @ '':'' @ two_digits m @ '':00 +0200 +0200''\<rparr>"

definition empty_store :: store where
  "empty_store = \<lparr>threads_tbl = [], insights_tbl = [], dependencies_tbl = [], config_tbl = []\<rparr>"

text \<open>An insight as \<^verbatim>\<open>NewInsight\<close> makes it, with a chosen identifier.\<close>

definition example_insight :: "string \<Rightarrow> time \<Rightarrow> InsightType \<Rightarrow> string \<Rightarrow> Insight" where
  "example_insight id' now insightType content =
     (NewInsight example_entropy now content insightType)\<lparr>ID := id'\<rparr>"

text \<open>
  Two questions and a decision; the decision supersedes the second question, and a
  hypothesis builds on the first.
\<close>

definition q1 :: Insight where
  "q1 = example_insight ''ins-q1'' (utc_time 10 0) InsightQuestion ''Why does login fail?''"

definition q2 :: Insight where
  "q2 = example_insight ''ins-q2'' (utc_time 11 0) InsightQuestion ''Is the token expired?''"

definition q3 :: Insight where
  "q3 = example_insight ''ins-q3'' (utc_time 12 0) InsightDecision ''Tokens are refreshed on login''"

definition questions_store :: store where
  "questions_store =
     empty_store\<lparr>
       insights_tbl := map insight_args [q1, q2, q3],
       dependencies_tbl :=
         [NewDependency (utc_time 12 10) ''ins-q3'' ''ins-q2'' DepSupersedes,
          NewDependency (utc_time 12 20) ''ins-h1'' ''ins-q1'' DepBuildsOn]\<rparr>"

text \<open>
  A thread with three insights (two discoveries and a question) and a discovery outside
  every thread, stored in the order of their timestamps.
\<close>

definition thread1 :: InsightThread where
  "thread1 = (NewThread example_entropy (utc_time 9 0) ''auth investigation'')\<lparr>Thread_ID := ''thr-1''\<rparr>"

definition ins_a :: Insight where
  "ins_a = (example_insight ''ins-a'' (utc_time 10 0) InsightDiscovery ''Found the bug'')\<lparr>ThreadID := ''thr-1''\<rparr>"

definition ins_b :: Insight where
  "ins_b = (example_insight ''ins-b'' (utc_time 11 0) InsightQuestion ''Is it the cache?'')\<lparr>ThreadID := ''thr-1''\<rparr>"

definition ins_c :: Insight where
  "ins_c = (example_insight ''ins-c'' (utc_time 12 0) InsightDiscovery ''The cache is stale'')\<lparr>ThreadID := ''thr-1''\<rparr>"

definition ins_d :: Insight where
  "ins_d = example_insight ''ins-d'' (utc_time 13 0) InsightDiscovery ''Unrelated finding''"

definition listing_store :: store where
  "listing_store =
     empty_store\<lparr>threads_tbl := [thread1],
                 insights_tbl := map insight_args [ins_a, ins_b, ins_c, ins_d]\<rparr>"

text \<open>
  The store after creating one insight and adding one builds-on edge from it; and the
  same edge again with another creation time and with another type.
\<close>

definition edge_store :: store where
  "edge_store =
     snd (AddDependency (snd (CreateInsight empty_store q1))
            (NewDependency (utc_time 10 10) ''ins-q1'' ''ins-q2'' DepBuildsOn))"

definition edge_again :: Dependency where
  "edge_again = NewDependency (utc_time 10 20) ''ins-q1'' ''ins-q2'' DepBuildsOn"

definition edge_other_type :: Dependency where
  "edge_other_type = NewDependency (utc_time 10 30) ''ins-q1'' ''ins-q2'' DepSupersedes"

text \<open>A cycle of builds-on edges: a builds on b, b on c, and c on a.\<close>

definition cycle_store :: store where
  "cycle_store =
     empty_store\<lparr>dependencies_tbl :=
       [NewDependency (utc_time 8 10) ''ins-a'' ''ins-b'' DepBuildsOn,
        NewDependency (utc_time 8 20) ''ins-b'' ''ins-c'' DepBuildsOn,
        NewDependency (utc_time 8 30) ''ins-c'' ''ins-a'' DepBuildsOn]\<rparr>"

text \<open>
  The trace scenario: insight a builds on insight b, and b spawns the bead
  \<^verbatim>\<open>bead-7f2a\<close>.
\<close>

definition trace_a :: Insight where
  "trace_a = example_insight ''ins-a'' (utc_time 10 0) InsightHypothesis ''Maybe the token expires''"

definition trace_b :: Insight where
  "trace_b = example_insight ''ins-b'' (utc_time 11 0) InsightDecision ''Refresh the token on login''"

definition trace_store :: store where
  "trace_store =
     empty_store\<lparr>
       insights_tbl := map insight_args [trace_a, trace_b],
       dependencies_tbl :=
         [NewDependency (utc_time 11 10) ''ins-a'' ''ins-b'' DepBuildsOn,
          NewDependency (utc_time 11 20) ''ins-b'' ''bead-7f2a'' DepSpawns]\<rparr>"

text \<open>
  Two edges into the same insight, the later one inserted first: d supersedes b (created
  at 9:50) and c builds on b (created at 9:40).
\<close>

definition tie_store :: store where
  "tie_store =
     empty_store\<lparr>dependencies_tbl :=
       [NewDependency (utc_time 9 50) ''ins-d'' ''ins-b'' DepSupersedes,
        NewDependency (utc_time 9 40) ''ins-c'' ''ins-b'' DepBuildsOn]\<rparr>"

text \<open>
  Insights with times of two clocks: \<^verbatim>\<open>ins-a\<close> occurred at 10:30 on the clock of UTC, and
  \<^verbatim>\<open>ins-b\<close> at 09:00 on that clock, which the clock two hours ahead shows as 11:00.
\<close>

definition mixed_a :: Insight where
  "mixed_a = example_insight ''ins-a'' (utc_time 10 30) InsightDiscovery ''Found the bug''"

definition mixed_b :: Insight where
  "mixed_b = example_insight ''ins-b'' (east_time 11 0) InsightDiscovery ''The cache is stale''"

definition mixed_store :: store where
  "mixed_store = snd (CreateInsight (snd (CreateInsight empty_store mixed_a)) mixed_b)"

text \<open>
  Edges with creation times of two clocks: the insights \<^verbatim>\<open>ins-early\<close> and \<^verbatim>\<open>ins-late\<close>
  both build on \<^verbatim>\<open>ins-b\<close>, which spawns the bead \<^verbatim>\<open>bead-7f2a\<close>. The edge from
  \<^verbatim>\<open>ins-early\<close> was created first, at 09:00 on the clock of UTC, which the clock two hours
  ahead shows as 11:00; the edge from \<^verbatim>\<open>ins-late\<close> was created at 10:30 on the clock of
  UTC.
\<close>

definition ins_early :: Insight where
  "ins_early = example_insight ''ins-early'' (utc_time 8 0) InsightHypothesis ''Maybe the token expires''"

definition ins_late :: Insight where
  "ins_late = example_insight ''ins-late'' (utc_time 8 10) InsightHypothesis ''Maybe the clock is skewed''"

definition ins_target :: Insight where
  "ins_target = example_insight ''ins-b'' (utc_time 8 20) InsightDecision ''Refresh the token on login''"

definition early_edge :: Dependency where
  "early_edge = NewDependency (east_time 11 0) ''ins-early'' ''ins-b'' DepBuildsOn"

definition late_edge :: Dependency where
  "late_edge = NewDependency (utc_time 10 30) ''ins-late'' ''ins-b'' DepBuildsOn"

definition spawn_edge :: Dependency where
  "spawn_edge = NewDependency (utc_time 10 45) ''ins-b'' ''bead-7f2a'' DepSpawns"

definition mixed_edges_store :: store where
  "mixed_edges_store =
     fold (\<lambda>dep s. snd (AddDependency s dep)) [early_edge, late_edge, spawn_edge]
       (fold (\<lambda>ins s. snd (CreateInsight s ins)) [ins_early, ins_late, ins_target] empty_store)"

subsection \<open>An instance of the library\<close>

text \<open>
  A printer of documents in JSON's compact syntax, for strings that need no escape.
\<close>

definition quote :: "string \<Rightarrow> string" where
  "quote s = CHR 0x22 # s @ [CHR 0x22]"

fun print_json :: "json \<Rightarrow> string"
  and print_elems :: "json list \<Rightarrow> string"
  and print_members :: "(string \<times> json) list \<Rightarrow> string" where
  "print_json JNull = ''null''"
| "print_json (JBool b) = (if b then ''true'' else ''false'')"
| "print_json (JNum literal) = literal"
| "print_json (JStr s) = quote s"
| "print_json (JArr js) = ''['' @ print_elems js @ '']''"
| "print_json (JObj ms) = ''{'' @ print_members ms @ ''}''"
| "print_elems [] = []"
| "print_elems [j] = print_json j"
| "print_elems (j # k # js) = print_json j @ '','' @ print_elems (k # js)"
| "print_members [] = []"
| "print_members [(key, v)] = quote key @ '':'' @ print_json v"
| "print_members ((key, v) # m # ms) =
     quote key @ '':'' @ print_json v @ '','' @ print_members (m # ms)"











definition no_files :: filesystem where
  "no_files = (\<lambda>path. Missing)"

text \<open>
  A file of the log with one line: a record whose content has 65536 bytes, between the
  braces and quotes of a JSON object.
\<close>

definition long_record :: string where
  "long_record =
     ''{'' @ quote ''id'' @ '':'' @ quote ''ins-0001'' @ '','' @ quote ''content'' @ '':''
     @ quote (replicate 65536 (CHR ''x'')) @ ''}'' @ [newline]"

chapter \<open>Properties\<close>

section \<open>Properties of the identifier generator\<close>

lemma length_EncodeToString: "length (EncodeToString bs) = 2 * length bs"
  by (induction bs) auto

lemma hextable_nth_mem: "n < 16 \<Longrightarrow> hextable ! n \<in> set hextable"
  by (rule nth_mem) (simp add: hextable_def)

lemma high_nibble_bound: "unat (drop_bit 4 (b :: 8 word)) < 16"
proof -
  have "unat (drop_bit 4 b) = unat b div 2 ^ 4"
    by (simp add: drop_bit_eq_div unat_div)
  moreover have "unat b < 2 ^ 8"
    using unsigned_less [of b] by simp
  ultimately show ?thesis by simp
qed

lemma low_nibble_bound: "unat ((b :: 8 word) AND 0x0f) < 16"
proof -
  have "b AND 0x0f \<le> 0x0f"
    by (rule word_and_le1)
  then have "unat (b AND 0x0f) \<le> unat (0x0f :: 8 word)"
    by (simp add: word_le_nat_alt)
  then show ?thesis by simp
qed

lemma set_EncodeToString: "set (EncodeToString bs) \<subseteq> set hextable"
  by (induction bs) (auto intro: hextable_nth_mem high_nibble_bound low_nibble_bound)

text \<open>
  C1 (as the code has it). For every prefix and every outcome of the entropy source, the
  identifier is the prefix, a hyphen and a suffix of 4 lower-case hexadecimal characters;
  the suffix is the encoding of the first two of the four random bytes only, so the
  suffix space has 16 bits.
\<close>

theorem GenerateID_four_hex_suffix:
  "GenerateID rnd prefix = prefix @ ''-'' @ EncodeToString [rnd 0, rnd 1]
   \<and> length (EncodeToString [rnd 0, rnd 1]) = 4
   \<and> set (EncodeToString [rnd 0, rnd 1]) \<subseteq> set hextable"
proof -
  have "rand_Read rnd 4 = [rnd 0, rnd 1, rnd 2, rnd 3]"
    by (simp add: rand_Read_def upt_rec numeral_2_eq_2 numeral_3_eq_3)
  then have "GenerateID rnd prefix = prefix @ ''-'' @ EncodeToString [rnd 0, rnd 1]"
    by (simp add: GenerateID_def)
  then show ?thesis
    using set_EncodeToString [of "[rnd 0, rnd 1]"] by (simp add: length_EncodeToString)
qed

theorem GenerateID_four_hex_suffix_witness:
  "GenerateID example_entropy ''ins'' = ''ins-7f2a''"
  using GenerateID_four_hex_suffix [of example_entropy "''ins''"]
  by (simp add: example_entropy_def hextable_def drop_bit_eq_div unat_div)

text \<open>
  C1 (as the specification states it) asks for an 8-character suffix. With the entropy
  source delivering the bytes 7f 2a 9c 01 the identifier is \<^verbatim>\<open>ins-7f2a\<close>: the suffix has 4
  characters, and the bytes 9c and 01 do not appear in it.
\<close>

theorem GenerateID_suffix_not_eight_counterexample:
  "GenerateID example_entropy ''ins'' = ''ins-7f2a''
   \<and> length (GenerateID example_entropy ''ins'') \<noteq> length ''ins'' + 1 + 8"
  by (simp add: GenerateID_def rand_Read_def upt_rec example_entropy_def hextable_def
      drop_bit_eq_div unat_div)

section \<open>Properties of the relational store\<close>

lemma col_id_insight_args [simp]: "col_id (insight_args insight) = ID insight"
  by (simp add: insight_args_def)

lemma UpdateInsight_absent:
  assumes "ID insight \<notin> set (map col_id (insights_tbl s))"
  shows "UpdateInsight s insight = (Some (InsightNotFound (ID insight)), s)"
proof -
  have nohit: "filter (\<lambda>x. col_id x = ID insight) (insights_tbl s) = []"
    using assms by (force simp: filter_empty_conv)
  have same: "map (\<lambda>x. if col_id x = ID insight then insight_args insight else x) (insights_tbl s)
              = insights_tbl s"
    using assms by (intro map_idI) force
  show ?thesis
    by (simp add: UpdateInsight_def exec_update_insight_def nohit same)
qed

lemma DeleteInsight_absent:
  assumes "id' \<notin> set (map col_id (insights_tbl s))"
  shows "DeleteInsight s id' = (Some (InsightNotFound id'), s)"
proof -
  have nohit: "filter (\<lambda>x. col_id x = id') (insights_tbl s) = []"
    using assms by (force simp: filter_empty_conv)
  have same: "filter (\<lambda>x. col_id x \<noteq> id') (insights_tbl s) = insights_tbl s"
    using assms by (force simp: filter_id_conv)
  show ?thesis
    by (simp add: DeleteInsight_def exec_delete_insight_def nohit same)
qed

lemma CreateInsight_duplicate:
  assumes "ID insight \<in> set (map col_id (insights_tbl s))"
  shows "CreateInsight s insight
         = (Some (InsertInsightFailed (UniqueConstraintFailed ''insights.id'')), s)"
  using assms by (simp add: CreateInsight_def exec_insert_insight_def)

lemma AddDependency_duplicate:
  assumes "list_ex (same_edge dep) (dependencies_tbl s)"
  shows "AddDependency s dep
         = (Some (DependencyAlreadyExists (Dep_From dep) (Dep_To dep) (Dep_Type dep)), s)"
  using assms by (simp add: AddDependency_def exec_insert_dependency_def del: list_ex_iff)

lemma AddDependency_new:
  assumes "\<not> list_ex (same_edge dep) (dependencies_tbl s)"
  shows "AddDependency s dep = (None, s\<lparr>dependencies_tbl := dependencies_tbl s @ [dep]\<rparr>)"
  using assms by (simp add: AddDependency_def exec_insert_dependency_def del: list_ex_iff)

text \<open>
  C10. When no row of the insights table has the identifier, \<^verbatim>\<open>UpdateInsight\<close> and
  \<^verbatim>\<open>DeleteInsight\<close> return the not-found error for that identifier, and the store they
  leave is the store they were given.
\<close>

theorem update_delete_absent_not_found:
  assumes "ID insight \<notin> set (map col_id (insights_tbl s))"
  shows "UpdateInsight s insight = (Some (InsightNotFound (ID insight)), s)
         \<and> DeleteInsight s (ID insight) = (Some (InsightNotFound (ID insight)), s)"
  using assms UpdateInsight_absent DeleteInsight_absent by simp

theorem update_delete_absent_not_found_witness:
  "UpdateInsight questions_store (example_insight ''ins-zz'' (utc_time 9 5) InsightPivot ''x'')
     = (Some (InsightNotFound ''ins-zz''), questions_store)
   \<and> DeleteInsight questions_store ''ins-zz''
     = (Some (InsightNotFound ''ins-zz''), questions_store)"
  using update_delete_absent_not_found
          [of "example_insight ''ins-zz'' (utc_time 9 5) InsightPivot ''x''" questions_store]
  by (simp add: questions_store_def empty_store_def q1_def q2_def q3_def
      example_insight_def NewInsight_def)

text \<open>
  C3. Creating an insight whose identifier a row already has fails with the driver's
  unique-constraint error on \<^verbatim>\<open>insights.id\<close>, wrapped by \<^verbatim>\<open>CreateInsight\<close>; adding a
  dependency whose source, target and type a row already has fails with the
  already-exists error that names the three; adding a dependency whose type differs from
  the type of every row with the same source and target succeeds and appends the row.
  The first two are the specification's Duplicate errors, and leave the store as it was.
\<close>

theorem create_duplicates_rejected:
  "(ID insight \<in> set (map col_id (insights_tbl s)) \<longrightarrow>
      CreateInsight s insight
        = (Some (InsertInsightFailed (UniqueConstraintFailed ''insights.id'')), s))
   \<and> ((\<exists>e\<in>set (dependencies_tbl s).
          Dep_From e = Dep_From dep \<and> Dep_To e = Dep_To dep \<and> Dep_Type e = Dep_Type dep) \<longrightarrow>
      AddDependency s dep
        = (Some (DependencyAlreadyExists (Dep_From dep) (Dep_To dep) (Dep_Type dep)), s))
   \<and> ((\<forall>e\<in>set (dependencies_tbl s).
          Dep_From e = Dep_From dep \<and> Dep_To e = Dep_To dep \<longrightarrow> Dep_Type e \<noteq> Dep_Type dep) \<longrightarrow>
      AddDependency s dep = (None, s\<lparr>dependencies_tbl := dependencies_tbl s @ [dep]\<rparr>))"
proof (intro conjI impI)
  assume "ID insight \<in> set (map col_id (insights_tbl s))"
  then show "CreateInsight s insight
        = (Some (InsertInsightFailed (UniqueConstraintFailed ''insights.id'')), s)"
    by (rule CreateInsight_duplicate)
next
  assume "\<exists>e\<in>set (dependencies_tbl s).
          Dep_From e = Dep_From dep \<and> Dep_To e = Dep_To dep \<and> Dep_Type e = Dep_Type dep"
  then have "list_ex (same_edge dep) (dependencies_tbl s)"
    by (simp add: list_ex_iff same_edge_def)
  then show "AddDependency s dep
        = (Some (DependencyAlreadyExists (Dep_From dep) (Dep_To dep) (Dep_Type dep)), s)"
    by (rule AddDependency_duplicate)
next
  assume "\<forall>e\<in>set (dependencies_tbl s).
          Dep_From e = Dep_From dep \<and> Dep_To e = Dep_To dep \<longrightarrow> Dep_Type e \<noteq> Dep_Type dep"
  then have "\<not> list_ex (same_edge dep) (dependencies_tbl s)"
    by (simp add: list_ex_iff same_edge_def)
  then show "AddDependency s dep = (None, s\<lparr>dependencies_tbl := dependencies_tbl s @ [dep]\<rparr>)"
    by (rule AddDependency_new)
qed

text \<open>
  On the empty store the first creation of an insight and the first addition of an edge
  succeed; on the store they leave, the second creation and the second addition fail,
  and the addition of the edge with another type succeeds.
\<close>

theorem create_duplicates_rejected_witness:
  "fst (CreateInsight empty_store q1) = None
   \<and> fst (AddDependency (snd (CreateInsight empty_store q1))
             (NewDependency (utc_time 10 10) ''ins-q1'' ''ins-q2'' DepBuildsOn)) = None
   \<and> CreateInsight edge_store q1
     = (Some (InsertInsightFailed (UniqueConstraintFailed ''insights.id'')), edge_store)
   \<and> AddDependency edge_store edge_again
     = (Some (DependencyAlreadyExists ''ins-q1'' ''ins-q2'' DepBuildsOn), edge_store)
   \<and> AddDependency edge_store edge_other_type
     = (None, edge_store\<lparr>dependencies_tbl := dependencies_tbl edge_store @ [edge_other_type]\<rparr>)"
  using create_duplicates_rejected [of q1 edge_store edge_again]
        create_duplicates_rejected [of q1 edge_store edge_other_type]
  by (simp add: edge_store_def empty_store_def edge_again_def edge_other_type_def
      NewDependency_def q1_def example_insight_def NewInsight_def
      DepBuildsOn_def DepSupersedes_def CreateInsight_def exec_insert_insight_def
      foreign_key_ok_def insight_args_def nullable_def AddDependency_def
      exec_insert_dependency_def same_edge_def)

subsection \<open>Rows read back\<close>

lemma Unmarshal_elems_strings [simp]:
  "Unmarshal_elems field (map (\<lambda>x. JStr (f x)) xs) = Inr (map f xs)"
  by (induction xs) auto

lemma unmarshal_column_Marshal_strings [simp]:
  "unmarshal_column field (Some (Marshal_strings v)) = Inr (map_option (map written_string) v)"
  by (cases v) (simp_all add: unmarshal_column_def Marshal_strings_def)

text \<open>
  The row that \<^verbatim>\<open>CreateInsight\<close> and \<^verbatim>\<open>UpdateInsight\<close> write reads back as the insight,
  with the strings of its lists as they were written.
\<close>

lemma scan_insight_insight_args:
  "scan_insight (insight_args insight)
   = Inr (insight\<lparr>EndorsedBy := map_option (map written_string) (EndorsedBy insight),
                  Tags := map_option (map written_string) (Tags insight),
                  Source := (Source insight)\<lparr>Source_Participants :=
                     map_option (map written_string) (Source_Participants (Source insight))\<rparr>\<rparr>)"
  by (cases insight, cases "Source insight")
     (simp add: scan_insight_def insight_args_def nullable_def)

lemma scan_rows_append:
  "scan_rows scan rows = Inr xs \<Longrightarrow> scan r = Inr x \<Longrightarrow> scan_rows scan (rows @ [r]) = Inr (xs @ [x])"
  by (induction rows arbitrary: xs) (auto split: sum.splits)

lemma CreateInsight_keeps_readable:
  assumes "scan_rows scan_insight (insights_tbl s) = Inr stored"
    and "CreateInsight s insight = (None, s')"
  shows "\<exists>written. scan_insight (insight_args insight) = Inr written
           \<and> scan_rows scan_insight (insights_tbl s') = Inr (stored @ [written])"
proof -
  from assms(2) have "insights_tbl s' = insights_tbl s @ [insight_args insight]"
    by (auto simp: CreateInsight_def exec_insert_insight_def split: if_splits)
  with scan_rows_append [OF assms(1) scan_insight_insight_args] show ?thesis
    by (simp add: scan_insight_insight_args)
qed

subsection \<open>Listing\<close>

lemma scan_rows_Inr:
  "scan_rows scan rows = Inr xs \<Longrightarrow>
     xs = map (projr \<circ> scan) rows \<and> (\<forall>r\<in>set rows. scan r = Inr (projr (scan r)))"
  by (induction rows arbitrary: xs) (auto split: sum.splits)

lemma scan_rows_all:
  "(\<forall>r\<in>set rows. \<exists>x. scan r = Inr x) \<Longrightarrow>
     scan_rows scan rows = Inr (map (projr \<circ> scan) rows)"
  by (induction rows) auto

lemma scan_insight_fields:
  assumes "scan_insight r = Inr i"
  shows "Timestamp i = col_timestamp r" and "Type i = col_type r"
    and "ThreadID i = (case col_thread_id r of None \<Rightarrow> [] | Some t \<Rightarrow> t)" and "ID i = col_id r"
  using assms by (auto simp: scan_insight_def split: sum.splits)

text \<open>
  The query returns the rows that pass its \<^verbatim>\<open>WHERE\<close> clause, in the order of its
  \<^verbatim>\<open>ORDER BY\<close> clause, each read back.
\<close>

lemma ListInsights_rows:
  assumes "scan_rows scan_insight (insights_tbl s) = Inr stored"
  shows "ListInsights s th ty since
         = Inr (map (projr \<circ> scan_insight)
                  (order_by_timestamp_desc (filter (list_where th ty since) (insights_tbl s))))"
proof -
  let ?hit = "order_by_timestamp_desc (filter (list_where th ty since) (insights_tbl s))"
  from scan_rows_Inr [OF assms]
  have ok: "\<forall>r\<in>set (insights_tbl s). scan_insight r = Inr ((projr \<circ> scan_insight) r)" by auto
  have "set ?hit \<subseteq> set (insights_tbl s)"
    by (auto simp: order_by_timestamp_desc_def)
  with ok have "\<forall>r\<in>set ?hit. \<exists>x. scan_insight r = Inr x" by auto
  then show ?thesis
    unfolding ListInsights_def by (rule scan_rows_all)
qed

text \<open>Without filters the query returns every stored insight.\<close>

lemma ListInsights_all:
  assumes "scan_rows scan_insight (insights_tbl s) = Inr stored"
  shows "\<exists>allInsights. ListInsights s [] [] zero_time = Inr allInsights
           \<and> mset allInsights = mset stored"
proof -
  have "filter (list_where [] [] zero_time) (insights_tbl s) = insights_tbl s"
    by (rule filter_True) (simp add: list_where_def IsZero_def zero_time_def)
  moreover from scan_rows_Inr [OF assms]
  have "stored = map (projr \<circ> scan_insight) (insights_tbl s)" by simp
  ultimately show ?thesis
    by (simp add: ListInsights_rows [OF assms] order_by_timestamp_desc_def)
qed

text \<open>
  When the texts of the times involved are ordered as their instants are (as the texts
  of times of one zone, written in one format, within the years 0 to 9999), the query
  does what the specification says: the clause on \<^verbatim>\<open>since\<close> is the predicate on instants,
  and the order is descending in the instants.
\<close>

lemma list_where_satisfies:
  assumes "scan_insight r = Inr i"
    and "(Time_String since \<le> Time_String (Timestamp i)) = (instant since \<le> instant (Timestamp i))"
  shows "list_where th ty since r = satisfies_filters th ty since i"
  using scan_insight_fields [OF assms(1)] assms(2)
  by (auto simp: list_where_def satisfies_filters_def split: option.splits)

lemma ListInsights_one_zone:
  assumes rows: "scan_rows scan_insight (insights_tbl s) = Inr stored"
    and agree: "\<And>a b. a \<in> insert since (Timestamp ` set stored) \<Longrightarrow>
                  b \<in> insert since (Timestamp ` set stored) \<Longrightarrow>
                  (Time_String a \<le> Time_String b) = (instant a \<le> instant b)"
  shows "\<exists>result. ListInsights s th ty since = Inr result
           \<and> mset result = mset (filter (satisfies_filters th ty since) stored)
           \<and> sorted_wrt (\<lambda>a b. instant (Timestamp b) \<le> instant (Timestamp a)) result"
proof -
  let ?g = "projr \<circ> scan_insight"
  let ?rows = "insights_tbl s"
  let ?key = "\<lambda>r. Time_String (col_timestamp r)"
  let ?asc = "sort_key ?key (filter (list_where th ty since) ?rows)"
  let ?hit = "order_by_timestamp_desc (filter (list_where th ty since) ?rows)"
  from scan_rows_Inr [OF rows]
  have stored: "stored = map ?g ?rows"
    and ok: "\<forall>r\<in>set ?rows. scan_insight r = Inr (?g r)" by auto
  have ts: "\<And>r. r \<in> set ?rows \<Longrightarrow> Timestamp (?g r) = col_timestamp r"
    using ok scan_insight_fields(1) by metis
  have mem: "\<And>r. r \<in> set ?rows \<Longrightarrow> col_timestamp r \<in> Timestamp ` set stored"
    using ts by (force simp: stored)
  have res: "ListInsights s th ty since = Inr (map ?g ?hit)"
    by (rule ListInsights_rows [OF rows])
  have same: "\<And>r. r \<in> set ?rows \<Longrightarrow> list_where th ty since r = satisfies_filters th ty since (?g r)"
  proof -
    fix r assume r: "r \<in> set ?rows"
    with ok have "scan_insight r = Inr (?g r)" by blast
    moreover have "(Time_String since \<le> Time_String (Timestamp (?g r)))
                   = (instant since \<le> instant (Timestamp (?g r)))"
      using agree [of since "Timestamp (?g r)"] mem [OF r] ts [OF r] by simp
    ultimately show "list_where th ty since r = satisfies_filters th ty since (?g r)"
      by (rule list_where_satisfies)
  qed
  have f: "filter (list_where th ty since) ?rows
             = filter (satisfies_filters th ty since \<circ> ?g) ?rows"
    by (rule filter_cong) (use same in auto)
  have "mset (map ?g ?hit) = image_mset ?g (mset (filter (list_where th ty since) ?rows))"
    by (simp add: order_by_timestamp_desc_def)
  also have "\<dots> = mset (filter (satisfies_filters th ty since) stored)"
    by (simp only: f) (simp add: stored filter_map)
  finally have m: "mset (map ?g ?hit) = mset (filter (satisfies_filters th ty since) stored)" .
  have "sorted (map ?key ?asc)"
    by simp
  then have "sorted_wrt (\<lambda>a b. ?key a \<le> ?key b) ?asc"
    by (simp add: sorted_map)
  then have "sorted_wrt (\<lambda>a b. ?key b \<le> ?key a) (rev ?asc)"
    by (simp add: sorted_wrt_rev)
  then have "sorted_wrt (\<lambda>a b. instant (Timestamp (?g b)) \<le> instant (Timestamp (?g a))) (rev ?asc)"
  proof (rule sorted_wrt_mono_rel [rotated])
    fix a b assume "a \<in> set (rev ?asc)" "b \<in> set (rev ?asc)" and le: "?key b \<le> ?key a"
    then have ab: "a \<in> set ?rows" "b \<in> set ?rows" by auto
    from agree [of "col_timestamp b" "col_timestamp a"] mem [OF ab(1)] mem [OF ab(2)] le
    have "instant (col_timestamp b) \<le> instant (col_timestamp a)" by simp
    with ts [OF ab(1)] ts [OF ab(2)]
    show "instant (Timestamp (?g b)) \<le> instant (Timestamp (?g a))"
      by simp
  qed
  then have "sorted_wrt (\<lambda>a b. instant (Timestamp b) \<le> instant (Timestamp a)) (map ?g ?hit)"
    by (simp add: sorted_wrt_map order_by_timestamp_desc_def)
  with res m show ?thesis by blast
qed

text \<open>
  C4. \<^verbatim>\<open>ListInsights\<close> compares and orders the texts of the timestamps, not the moments
  they denote. In a store with the insight \<^verbatim>\<open>ins-a\<close>, which occurred at 10:30 UTC, and
  \<^verbatim>\<open>ins-b\<close>, which occurred at 09:00 UTC and was recorded on a clock two hours ahead
  (11:00 +02:00):
  \<^item> the list without filters has \<^verbatim>\<open>ins-b\<close> before \<^verbatim>\<open>ins-a\<close>, the earlier occurrence
    first, so it is not in descending order of occurrence;
  \<^item> the list since 09:45 UTC holds \<^verbatim>\<open>ins-b\<close>, which occurred before that moment and does
    not satisfy the filter;
  \<^item> the list since 11:30 +02:00, which is 09:30 UTC, is empty, though \<^verbatim>\<open>ins-a\<close>
    occurred after that moment and satisfies the filter.
\<close>

theorem ListInsights_compares_time_texts:
  "fst (CreateInsight empty_store mixed_a) = None
   \<and> fst (CreateInsight (snd (CreateInsight empty_store mixed_a)) mixed_b) = None
   \<and> ListInsights mixed_store [] [] zero_time = Inr [mixed_b, mixed_a]
   \<and> instant (Timestamp mixed_b) < instant (Timestamp mixed_a)
   \<and> ListInsights mixed_store [] [] (utc_time 9 45) = Inr [mixed_b, mixed_a]
   \<and> \<not> satisfies_filters [] [] (utc_time 9 45) mixed_b
   \<and> ListInsights mixed_store [] [] (east_time 11 30) = Inr []
   \<and> satisfies_filters [] [] (east_time 11 30) mixed_a"
  by (simp add: ListInsights_def mixed_store_def mixed_a_def mixed_b_def empty_store_def
      CreateInsight_def exec_insert_insight_def foreign_key_ok_def
      order_by_timestamp_desc_def list_where_def satisfies_filters_def IsZero_def zero_time_def
      utc_time_def east_time_def two_digits_def
      scan_insight_def unmarshal_column_def insight_args_def
      Marshal_strings_def nullable_def example_insight_def NewInsight_def InsightDiscovery_def)
section \<open>Properties of the graph traversal\<close>

subsection \<open>Unresolved questions\<close>

lemma filterUnresolved_loop_total:
  assumes "\<And>i. st i = Inr (f i)"
  shows "filterUnresolved_loop st insights acc =
     Inr (acc @ filter (\<lambda>i. \<not> list_ex (\<lambda>dep. Dep_Type dep = DepSupersedes) (f (ID i))) insights)"
  by (induction insights arbitrary: acc) (simp_all add: assms del: list_ex_iff)

lemma superseded_iff:
  "list_ex (\<lambda>dep. Dep_Type dep = DepSupersedes)
      (sort_key (\<lambda>d. Time_String (Dep_CreatedAt d)) (filter (\<lambda>d. Dep_To d = i) (dependencies_tbl s)))
   \<longleftrightarrow> (\<exists>d\<in>set (dependencies_tbl s). Dep_To d = i \<and> Dep_Type d = DepSupersedes)"
  by (auto simp: list_ex_iff)

text \<open>
  C9. On a store, the unresolved filter succeeds and keeps, in their order, exactly the
  given insights that no dependency of type supersedes points to; dependencies of other
  types play no part.
\<close>

theorem filterUnresolved_exact:
  "filterUnresolved (GetDependents s) insights =
     Inr (filter (\<lambda>i. \<not> (\<exists>d\<in>set (dependencies_tbl s).
                            Dep_To d = ID i \<and> Dep_Type d = DepSupersedes)) insights)"
proof -
  have "\<And>i. GetDependents s i
          = Inr (sort_key (\<lambda>d. Time_String (Dep_CreatedAt d)) (filter (\<lambda>d. Dep_To d = i) (dependencies_tbl s)))"
    by (simp add: GetDependents_def)
  then show ?thesis
    unfolding filterUnresolved_def
    by (simp only: filterUnresolved_loop_total superseded_iff append_Nil)
qed

text \<open>
  The scenario of C9: \<open>q1\<close> has an incoming builds-on edge only, \<open>q2\<close> an incoming
  supersedes edge from \<open>q3\<close>; the filter returns \<open>q1\<close> only.
\<close>

theorem filterUnresolved_exact_witness:
  "filterUnresolved (GetDependents questions_store) [q1, q2] = Inr [q1]"
  using filterUnresolved_exact [of questions_store "[q1, q2]"]
  by (simp add: questions_store_def empty_store_def NewDependency_def q1_def q2_def
      example_insight_def NewInsight_def DepSupersedes_def DepBuildsOn_def)

subsection \<open>Trace\<close>

lemma first_relation_from:
  "fst (first_relation deps) = [] \<or> fst (first_relation deps) \<in> Dep_From ` set deps"
  by (induction deps) auto

lemma GetDependents_subset:
  "\<exists>deps. GetDependents s c = Inr deps \<and> set deps \<subseteq> set (dependencies_tbl s)"
  by (auto simp: GetDependents_def)

lemma traceChain_loop_terminates:
  assumes "set (map insightID chain) \<subseteq> visited" and "distinct (map insightID chain)"
  shows "\<exists>out. traceChain_loop (GetDependents s) cur visited chain = Some out
           \<and> distinct (map insightID out)
           \<and> length out \<le> length chain
                 + (if cur = [] \<or> cur \<in> visited then 0
                    else 1 + card (Dep_From ` set (dependencies_tbl s) - visited - {cur}))"
  using assms
proof (induction "card (Dep_From ` set (dependencies_tbl s) - visited - {cur})"
       arbitrary: cur visited chain rule: less_induct)
  case less
  let ?F = "Dep_From ` set (dependencies_tbl s)"
  show ?case
  proof (cases "cur \<noteq> [] \<and> cur \<notin> visited")
    case False
    then have "traceChain_loop (GetDependents s) cur visited chain = Some chain"
      by (subst traceChain_loop.simps) auto
    with False less.prems show ?thesis by auto
  next
    case True
    obtain deps where deps: "GetDependents s cur = Inr deps"
      and sub: "set deps \<subseteq> set (dependencies_tbl s)"
      using GetDependents_subset by blast
    let ?prev = "fst (first_relation deps)"
    let ?V = "insert cur visited"
    let ?chain = "\<lparr>insightID = cur, relationFromPrev = snd (first_relation deps)\<rparr> # chain"
    have step: "traceChain_loop (GetDependents s) cur visited chain
                = traceChain_loop (GetDependents s) ?prev ?V ?chain"
      by (subst traceChain_loop.simps) (simp add: True deps)
    have inv: "set (map insightID ?chain) \<subseteq> ?V" "distinct (map insightID ?chain)"
      using less.prems True by auto
    show ?thesis
    proof (cases "?prev \<noteq> [] \<and> ?prev \<notin> ?V")
      case False
      then have "traceChain_loop (GetDependents s) ?prev ?V ?chain = Some ?chain"
        by (subst traceChain_loop.simps) auto
      with step inv True show ?thesis by simp
    next
      case prev: True
      with first_relation_from [of deps] sub have inF: "?prev \<in> ?F" by auto
      have "?F - ?V - {?prev} \<subset> ?F - visited - {cur}"
        using prev inF by auto
      then have dec: "card (?F - ?V - {?prev}) < card (?F - visited - {cur})"
        by (intro psubset_card_mono) auto
      from less.hyps [OF dec inv] prev obtain out where
        out: "traceChain_loop (GetDependents s) ?prev ?V ?chain = Some out"
             "distinct (map insightID out)"
             "length out \<le> length ?chain + (1 + card (?F - ?V - {?prev}))"
        by auto
      with step dec True show ?thesis by auto
    qed
  qed
qed

text \<open>
  C7. On every store, whatever edges its dependency table holds, the backward walk of
  \<^verbatim>\<open>traceChain\<close> ends and returns a chain: no identifier occurs in it twice (the visited
  set stops the walk at the first identifier met again), and it has at most one item
  more than the table has rows.
\<close>

theorem traceChain_terminates:
  "\<exists>chain. traceChain startID insightMap (GetDependents s) = Some chain
      \<and> distinct (map insightID chain)
      \<and> length chain \<le> Suc (length (dependencies_tbl s))"
proof -
  let ?F = "Dep_From ` set (dependencies_tbl s)"
  from traceChain_loop_terminates [of "[]" "{}" s startID] obtain out where
    out: "traceChain_loop (GetDependents s) startID {} [] = Some out"
         "distinct (map insightID out)"
         "length out \<le> (if startID = [] then 0 else 1 + card (?F - {} - {startID}))"
    by auto
  have "card (?F - {} - {startID}) \<le> card ?F"
    by (intro card_mono) auto
  also have "\<dots> \<le> length (dependencies_tbl s)"
    by (metis card_image_le card_length le_trans List.finite_set)
  finally have "length out \<le> Suc (length (dependencies_tbl s))"
    using out(3) by (auto split: if_splits)
  with out show ?thesis by (auto simp: traceChain_def)
qed

text \<open>
  The cycle of C7: a builds on b, b on c and c on a. The walk from a visits a, c and b,
  meets a again and stops.
\<close>

theorem traceChain_terminates_witness:
  "traceChain ''ins-a'' Map.empty (GetDependents cycle_store)
   = Some [\<lparr>insightID = ''ins-b'', relationFromPrev = ''builds-on''\<rparr>,
           \<lparr>insightID = ''ins-c'', relationFromPrev = ''builds-on''\<rparr>,
           \<lparr>insightID = ''ins-a'', relationFromPrev = ''builds-on''\<rparr>]"
  using traceChain_terminates [of "''ins-a''" Map.empty cycle_store]
  by (simp add: traceChain_def traceChain_loop.simps GetDependents_def cycle_store_def
      empty_store_def NewDependency_def DepBuildsOn_def DepSupersedes_def)

lemma fold_insightMap_other:
  "k \<notin> ID ` set xs \<Longrightarrow> fold (\<lambda>ins m. m(ID ins \<mapsto> ins)) xs m0 k = m0 k"
  by (induction xs arbitrary: m0) auto

lemma build_insightMap_lookup:
  assumes "distinct (map ID xs)" and "x \<in> set xs"
  shows "build_insightMap xs (ID x) = Some x"
proof -
  have "fold (\<lambda>ins m. m(ID ins \<mapsto> ins)) xs m0 (ID x) = Some x" for m0
    using assms
  proof (induction xs arbitrary: m0)
    case Nil
    then show ?case by simp
  next
    case (Cons a xs)
    show ?case
    proof (cases "x = a")
      case True
      with Cons.prems have "ID a \<notin> ID ` set xs" by auto
      then have "fold (\<lambda>ins m. m(ID ins \<mapsto> ins)) xs (m0(ID a \<mapsto> a)) (ID a)
                 = (m0(ID a \<mapsto> a)) (ID a)"
        by (rule fold_insightMap_other)
      then show ?thesis unfolding True by (simp only: fold_simps fun_upd_same)
    next
      case False
      with Cons show ?thesis by auto
    qed
  qed
  then show ?thesis by (simp add: build_insightMap_def)
qed

lemma concat_single_hit:
  assumes "distinct (map ID xs)" and "b \<in> set xs"
  shows "concat (map (\<lambda>i. if ID i = ID b then [ID i] else []) xs) = [ID b]"
  using assms
proof (induction xs)
  case Nil
  then show ?case by simp
next
  case (Cons a xs)
  have none: "ID b \<notin> ID ` set ys \<Longrightarrow> concat (map (\<lambda>i. if ID i = ID b then [ID i] else []) ys) = []" for ys
    by (induction ys) (auto simp del: concat_eq_Nil_conv)
  show ?case
  proof (cases "b = a")
    case True
    with Cons.prems have "ID b \<notin> ID ` set xs" by auto
    then have "concat (map (\<lambda>i. if ID i = ID b then [ID i] else []) xs) = []"
      by (rule none)
    then show ?thesis using True by (simp del: concat_eq_Nil_conv)
  next
    case False
    with Cons.prems have "b \<in> set xs" "ID a \<noteq> ID b" by force+
    with Cons show ?thesis by simp
  qed
qed

lemma first_relation_filter:
  "first_relation deps =
     (case filter (\<lambda>d. Dep_Type d = DepBuildsOn \<or> Dep_Type d = DepSupersedes) deps of
        [] \<Rightarrow> ([], [])
      | e # _ \<Rightarrow> (Dep_From e, Dep_Type e))"
  by (induction deps) auto

lemma traceChain_loop_step:
  assumes "current \<noteq> []" and "current \<notin> visited" and "st current = Inr deps"
  shows "traceChain_loop st current visited chain
         = traceChain_loop st (fst (first_relation deps)) (insert current visited)
             (\<lparr>insightID = current, relationFromPrev = snd (first_relation deps)\<rparr> # chain)"
  by (subst traceChain_loop.simps) (simp add: assms)

lemma traceChain_loop_stop:
  assumes "current = [] \<or> current \<in> visited"
  shows "traceChain_loop st current visited chain = Some chain"
  using assms by (subst traceChain_loop.simps) auto

lemma scenario_walk:
  assumes deps: "dependencies_tbl s =
             [NewDependency t1 a b DepBuildsOn, NewDependency t2 b beadID DepSpawns]"
    and ne: "a \<noteq> b" "a \<noteq> []" "b \<noteq> []"
  shows "traceChain b insightMap (GetDependents s)
         = Some [\<lparr>insightID = a, relationFromPrev = []\<rparr>,
                 \<lparr>insightID = b, relationFromPrev = DepBuildsOn\<rparr>]"
proof -
  obtain db where db: "GetDependents s b = Inr db" "first_relation db = (a, DepBuildsOn)"
    using ne by (auto simp: GetDependents_def deps NewDependency_def first_relation_filter
        DepBuildsOn_def DepSpawns_def DepSupersedes_def)
  obtain da where da: "GetDependents s a = Inr da" "first_relation da = ([], [])"
    using ne by (auto simp: GetDependents_def deps NewDependency_def first_relation_filter
        DepBuildsOn_def DepSpawns_def DepSupersedes_def)
  let ?G = "GetDependents s"
  let ?ib = "\<lparr>insightID = b, relationFromPrev = DepBuildsOn\<rparr>"
  let ?ia = "\<lparr>insightID = a, relationFromPrev = []\<rparr>"
  have "traceChain_loop ?G b {} [] = traceChain_loop ?G a {b} [?ib]"
    using traceChain_loop_step [of b "{}" ?G db "[]"] db ne by simp
  also have "\<dots> = traceChain_loop ?G [] {a, b} [?ia, ?ib]"
    using traceChain_loop_step [of a "{b}" ?G da "[?ib]"] da ne by simp
  also have "\<dots> = Some [?ia, ?ib]"
    by (rule traceChain_loop_stop) simp
  finally show ?thesis
    by (simp add: traceChain_def)
qed

lemma scenario_spawning:
  assumes deps: "dependencies_tbl s =
             [NewDependency t1 a b DepBuildsOn, NewDependency t2 b beadID DepSpawns]"
  shows "spawning_of s beadID ins = (if ID ins = b then [ID ins] else [])"
  by (auto simp: spawning_of_def GetDependencies_def deps NewDependency_def
      DepBuildsOn_def DepSpawns_def)

text \<open>
  The scenario of C8. In a store whose insights read back with distinct identifiers, that
  holds the insights A and B and whose dependency table is the two rows "A builds-on B"
  and "B spawns the bead", \<^verbatim>\<open>runTrace\<close> on the bead prints one chain: A with the
  annotation builds-on, then B with the annotation spawns and the bead.
\<close>

lemma trace_scenario:
  assumes bead: "IsBeadID beadID"
    and rows: "scan_rows scan_insight (insights_tbl s) = Inr stored"
    and ids: "distinct (map ID stored)"
    and mem: "A \<in> set stored" "B \<in> set stored"
    and ne: "ID A \<noteq> ID B" "ID A \<noteq> []" "ID B \<noteq> []"
    and deps: "dependencies_tbl s =
                 [NewDependency t1 (ID A) (ID B) DepBuildsOn,
                  NewDependency t2 (ID B) beadID DepSpawns]"
  shows "runTrace s beadID
           = Some (Inr (TraceFor beadID [[(A, Relation DepBuildsOn), (B, SpawnsTo beadID)]]))"
proof -
  from ListInsights_all [OF rows] obtain allInsights where
    list: "ListInsights s [] [] zero_time = Inr allInsights"
    and perm: "mset allInsights = mset stored"
    by blast
  from perm have "mset (map ID allInsights) = mset (map ID stored)" by simp
  with ids have dist: "distinct (map ID allInsights)"
    using mset_eq_imp_distinct_iff by blast
  from perm mem have mem': "A \<in> set allInsights" "B \<in> set allInsights"
    using mset_eq_setD by blast+
  let ?m = "build_insightMap allInsights"
  have look: "?m (ID A) = Some A" "?m (ID B) = Some B"
    using build_insightMap_lookup [OF dist] mem' by auto
  have "spawning_of s beadID = (\<lambda>i. if ID i = ID B then [ID i] else [])"
    by (rule ext) (rule scenario_spawning [OF deps])
  then have spawn: "concat (map (spawning_of s beadID) allInsights) = [ID B]"
    using concat_single_hit [OF dist mem'(2)] by (simp only:)
  have walk: "traceChain (ID B) ?m (GetDependents s)
         = Some [\<lparr>insightID = ID A, relationFromPrev = []\<rparr>,
                 \<lparr>insightID = ID B, relationFromPrev = DepBuildsOn\<rparr>]"
    by (rule scenario_walk [OF deps ne])
  show ?thesis
    by (simp add: runTrace_def bead list spawn walk look del: concat_eq_Nil_conv)
qed

text \<open>
  In every store, at every node, the walk follows the first builds-on or supersedes edge
  of the node's dependents, which \<^verbatim>\<open>GetDependents\<close> returns in ascending order of the
  texts of their creation times.
\<close>

lemma walk_follows_first_dependent:
  "\<exists>ds. GetDependents s current = Inr ds
      \<and> sorted (map (\<lambda>d. Time_String (Dep_CreatedAt d)) ds)
      \<and> mset ds = mset (filter (\<lambda>d. Dep_To d = current) (dependencies_tbl s))
      \<and> first_relation ds =
          (case filter (\<lambda>d. Dep_Type d = DepBuildsOn \<or> Dep_Type d = DepSupersedes) ds of
             [] \<Rightarrow> ([], [])
           | e # _ \<Rightarrow> (Dep_From e, Dep_Type e))
      \<and> (current \<noteq> [] \<and> current \<notin> visited \<longrightarrow>
           traceChain_loop (GetDependents s) current visited chain
           = traceChain_loop (GetDependents s) (fst (first_relation ds))
               (insert current visited)
               (\<lparr>insightID = current, relationFromPrev = snd (first_relation ds)\<rparr> # chain))"
proof -
  let ?ds = "sort_key (\<lambda>d. Time_String (Dep_CreatedAt d))
               (filter (\<lambda>d. Dep_To d = current) (dependencies_tbl s))"
  have g: "GetDependents s current = Inr ?ds"
    by (simp add: GetDependents_def)
  have "current \<noteq> [] \<and> current \<notin> visited \<longrightarrow>
          traceChain_loop (GetDependents s) current visited chain
          = traceChain_loop (GetDependents s) (fst (first_relation ?ds))
              (insert current visited)
              (\<lparr>insightID = current, relationFromPrev = snd (first_relation ?ds)\<rparr> # chain)"
    using traceChain_loop_step [of current visited "GetDependents s" ?ds chain] g by blast
  with g first_relation_filter [of ?ds] show ?thesis
    by (intro exI [of _ ?ds]) simp
qed

text \<open>
  C8. \<^verbatim>\<open>GetDependents\<close> orders the edges by the texts of their creation times, not by the
  moments they denote. In the store made by creating the insights \<^verbatim>\<open>ins-early\<close>,
  \<^verbatim>\<open>ins-late\<close> and \<^verbatim>\<open>ins-b\<close> and adding the edges "ins-early builds-on ins-b" (created at
  09:00 UTC, on a clock that shows 11:00 +02:00), "ins-late builds-on ins-b" (created at
  10:30 UTC) and "ins-b spawns bead-7f2a", the dependents of \<^verbatim>\<open>ins-b\<close> come back with the
  edge created later first, the walk from \<^verbatim>\<open>ins-b\<close> takes that edge, and the trace of the
  bead prints the chain of \<^verbatim>\<open>ins-late\<close> and \<^verbatim>\<open>ins-b\<close>, where the first edge in ascending
  order of creation time is the one from \<^verbatim>\<open>ins-early\<close>.
\<close>

theorem trace_follows_edge_created_later:
  "GetDependents mixed_edges_store ''ins-b'' = Inr [late_edge, early_edge]
   \<and> instant (Dep_CreatedAt early_edge) < instant (Dep_CreatedAt late_edge)
   \<and> traceChain ''ins-b'' Map.empty (GetDependents mixed_edges_store)
     = Some [\<lparr>insightID = ''ins-late'', relationFromPrev = []\<rparr>,
             \<lparr>insightID = ''ins-b'', relationFromPrev = ''builds-on''\<rparr>]
   \<and> runTrace mixed_edges_store ''bead-7f2a''
     = Some (Inr (TraceFor ''bead-7f2a''
                    [[(ins_late, Relation ''builds-on''), (ins_target, SpawnsTo ''bead-7f2a'')]]))"
proof -
  have store: "mixed_edges_store =
        empty_store\<lparr>insights_tbl := map insight_args [ins_early, ins_late, ins_target],
                    dependencies_tbl := [early_edge, late_edge, spawn_edge]\<rparr>"
    by (simp add: mixed_edges_store_def empty_store_def CreateInsight_def
        exec_insert_insight_def foreign_key_ok_def AddDependency_def
        exec_insert_dependency_def same_edge_def early_edge_def late_edge_def spawn_edge_def
        NewDependency_def ins_early_def ins_late_def ins_target_def example_insight_def
        NewInsight_def insight_args_def nullable_def DepBuildsOn_def DepSpawns_def)
  have dependents: "GetDependents mixed_edges_store ''ins-b'' = Inr [late_edge, early_edge]"
    by (simp add: store GetDependents_def empty_store_def early_edge_def late_edge_def
        spawn_edge_def NewDependency_def utc_time_def east_time_def two_digits_def)
  have later: "instant (Dep_CreatedAt early_edge) < instant (Dep_CreatedAt late_edge)"
    by (simp add: early_edge_def late_edge_def NewDependency_def utc_time_def east_time_def)
  have walk: "traceChain ''ins-b'' m (GetDependents mixed_edges_store)
     = Some [\<lparr>insightID = ''ins-late'', relationFromPrev = []\<rparr>,
             \<lparr>insightID = ''ins-b'', relationFromPrev = ''builds-on''\<rparr>]" for m
    by (simp add: traceChain_def traceChain_loop.simps store GetDependents_def empty_store_def
        early_edge_def late_edge_def spawn_edge_def NewDependency_def utc_time_def
        east_time_def two_digits_def DepBuildsOn_def DepSupersedes_def DepSpawns_def)
  have all_insights:
    "ListInsights mixed_edges_store [] [] zero_time = Inr [ins_target, ins_late, ins_early]"
    by (simp add: store ListInsights_def list_where_def IsZero_def zero_time_def
        order_by_timestamp_desc_def empty_store_def scan_insight_def unmarshal_column_def
        insight_args_def Marshal_strings_def nullable_def ins_early_def ins_late_def
        ins_target_def example_insight_def NewInsight_def utc_time_def two_digits_def)
  have spawning:
    "concat (map (spawning_of mixed_edges_store ''bead-7f2a'') [ins_target, ins_late, ins_early])
     = [''ins-b'']"
    by (simp add: store spawning_of_def GetDependencies_def empty_store_def ins_early_def
        ins_late_def ins_target_def example_insight_def early_edge_def late_edge_def
        spawn_edge_def NewDependency_def DepBuildsOn_def DepSpawns_def)
  have lookup:
    "build_insightMap [ins_target, ins_late, ins_early] ''ins-late'' = Some ins_late"
    "build_insightMap [ins_target, ins_late, ins_early] ''ins-b'' = Some ins_target"
    by (simp_all add: build_insightMap_def ins_early_def ins_late_def ins_target_def
        example_insight_def)
  have trace: "runTrace mixed_edges_store ''bead-7f2a''
     = Some (Inr (TraceFor ''bead-7f2a''
                    [[(ins_late, Relation ''builds-on''), (ins_target, SpawnsTo ''bead-7f2a'')]]))"
    by (simp only: runTrace_def all_insights sum.case Let_def spawning)
       (simp add: IsBeadID_def walk lookup)
  from dependents later walk trace show ?thesis by simp
qed
section \<open>Properties of the schema migrator\<close>

lemma find_append_Some: "find P xs \<noteq> None \<Longrightarrow> find P (xs @ ys) = find P xs"
  by (induction xs) auto

lemma find_table_append:
  "find_table db n \<noteq> None \<Longrightarrow> find_table (db\<lparr>db_tables := db_tables db @ ts\<rparr>) n = find_table db n"
  by (simp add: find_table_def find_append_Some)

lemma find_append_None: "find P xs = None \<Longrightarrow> P t \<Longrightarrow> find P (xs @ [t]) = Some t"
  by (induction xs) (auto split: if_splits)

lemma find_table_new:
  "find_table db (table_name t) = None \<Longrightarrow>
     find_table (db\<lparr>db_tables := db_tables db @ [t]\<rparr>) (table_name t) = Some t"
  by (simp add: find_table_def find_append_None)

lemma find_table_name:
  "find (\<lambda>t. table_name t = n) ts = Some x \<Longrightarrow> table_name x = n"
  by (induction ts) (auto split: if_splits)

lemma find_map_add_column:
  "find (\<lambda>t. table_name t = n)
        (map (\<lambda>t. if table_name t = tbl then t\<lparr>table_columns := table_columns t @ [c]\<rparr> else t) ts)
   = map_option (\<lambda>t. if table_name t = tbl then t\<lparr>table_columns := table_columns t @ [c]\<rparr> else t)
       (find (\<lambda>t. table_name t = n) ts)"
  by (induction ts) auto

lemma exec_established:
  "exec db st = Inr db' \<Longrightarrow> established db' st"
proof (cases st)
  case (CreateTableIfNotExists t)
  assume "exec db st = Inr db'"
  then show ?thesis unfolding CreateTableIfNotExists
    by (auto simp: find_table_new split: if_splits)
next
  case (CreateIndexIfNotExists i)
  assume "exec db st = Inr db'"
  then show ?thesis unfolding CreateIndexIfNotExists
    by (auto simp: has_index_def find_table_def split: if_splits option.splits list.splits)
next
  case (CreateTriggerIfNotExists g)
  assume "exec db st = Inr db'"
  then show ?thesis unfolding CreateTriggerIfNotExists
    by (auto simp: has_trigger_def find_table_def split: if_splits)
next
  case (AlterTableAddColumn tbl c)
  assume "exec db st = Inr db'"
  then show ?thesis unfolding AlterTableAddColumn
    by (auto simp: count_columns_def find_table_def find_map_add_column
        dest: find_table_name split: if_splits option.splits)
qed

lemma exec_keeps:
  assumes "exec db st' = Inr db'"
  shows "(find_table db n \<noteq> None \<longrightarrow> find_table db' n \<noteq> None)
       \<and> (has_index db n \<longrightarrow> has_index db' n)
       \<and> (has_trigger db n \<longrightarrow> has_trigger db' n)
       \<and> (0 < count_columns db n c \<longrightarrow> 0 < count_columns db' n c)"
proof (cases st')
  case (CreateTableIfNotExists t)
  with assms show ?thesis
    by (auto simp: has_index_def has_trigger_def count_columns_def find_table_def find_append_Some
        split: if_splits option.splits)
next
  case (CreateIndexIfNotExists i)
  with assms show ?thesis
    by (auto simp: has_index_def has_trigger_def count_columns_def find_table_def
        split: if_splits option.splits list.splits)
next
  case (CreateTriggerIfNotExists g)
  with assms show ?thesis
    by (auto simp: has_index_def has_trigger_def count_columns_def find_table_def
        split: if_splits option.splits)
next
  case (AlterTableAddColumn tbl c')
  with assms show ?thesis
    by (auto simp: has_index_def has_trigger_def count_columns_def find_table_def
        find_map_add_column dest: find_table_name split: if_splits option.splits)
qed

lemma exec_monotone:
  "exec db st' = Inr db' \<Longrightarrow> established db st \<Longrightarrow> established db' st"
  using exec_keeps [of db st' db'] by (cases st) auto

lemma exec_noop:
  "is_create st \<Longrightarrow> established db st \<Longrightarrow> exec db st = Inr db"
  by (cases st) (auto split: option.splits)

lemma exec_each_established:
  "exec_each db sts = Inr db' \<Longrightarrow>
     (\<forall>st\<in>set sts. established db' st) \<and> (\<forall>st. established db st \<longrightarrow> established db' st)"
proof (induction sts arbitrary: db)
  case Nil
  then show ?case by simp
next
  case (Cons a sts)
  then obtain db1 where a: "exec db a = Inr db1" and r: "exec_each db1 sts = Inr db'"
    by (auto split: sum.splits)
  from Cons.IH [OF r] exec_established [OF a] exec_monotone [OF a]
  show ?case by auto
qed

lemma exec_each_noop:
  "(\<forall>st\<in>set sts. is_create st \<and> established db st) \<Longrightarrow> exec_each db sts = Inr db"
  by (induction sts) (auto simp: exec_noop)

lemma indexes_are_creates: "\<forall>st\<in>set indexes. is_create st"
  by (simp add: indexes_def index_on_def trigger_on_def)

lemma migrateInitialSchema_established:
  assumes "migrateInitialSchema db = Inr db'"
  shows "(\<forall>st\<in>set ([CreateTableIfNotExists threads_table, CreateTableIfNotExists insights_table,
                       CreateTableIfNotExists dependencies_table] @ indexes). established db' st)
         \<and> (\<forall>st. established db st \<longrightarrow> established db' st)"
proof -
  from assms obtain db1 db2 db3 where
    e1: "exec db (CreateTableIfNotExists threads_table) = Inr db1" and
    e2: "exec db1 (CreateTableIfNotExists insights_table) = Inr db2" and
    e3: "exec db2 (CreateTableIfNotExists dependencies_table) = Inr db3" and
    e4: "exec_each db3 indexes = Inr db'"
    unfolding migrateInitialSchema_def by (auto simp del: exec.simps split: sum.splits)
  note m1 = exec_monotone [OF e1] and m2 = exec_monotone [OF e2] and m3 = exec_monotone [OF e3]
  from exec_each_established [OF e4]
  have i: "\<forall>st\<in>set indexes. established db' st" and m4: "\<And>st. established db3 st \<Longrightarrow> established db' st"
    by auto
  have "established db' (CreateTableIfNotExists threads_table)"
    using exec_established [OF e1] m2 m3 m4 by blast
  moreover have "established db' (CreateTableIfNotExists insights_table)"
    using exec_established [OF e2] m3 m4 by blast
  moreover have "established db' (CreateTableIfNotExists dependencies_table)"
    using exec_established [OF e3] m4 by blast
  moreover have "\<forall>st. established db st \<longrightarrow> established db' st"
    using m1 m2 m3 m4 by blast
  ultimately show ?thesis using i by simp
qed

lemma migrateInitialSchema_noop:
  assumes "\<forall>st\<in>set ([CreateTableIfNotExists threads_table, CreateTableIfNotExists insights_table,
                       CreateTableIfNotExists dependencies_table] @ indexes). established db st"
  shows "migrateInitialSchema db = Inr db"
proof -
  have "exec_each db indexes = Inr db"
    using assms indexes_are_creates by (intro exec_each_noop) auto
  moreover have "exec db (CreateTableIfNotExists threads_table) = Inr db"
    "exec db (CreateTableIfNotExists insights_table) = Inr db"
    "exec db (CreateTableIfNotExists dependencies_table) = Inr db"
    using assms by (auto intro!: exec_noop)
  ultimately show ?thesis by (simp add: migrateInitialSchema_def)
qed

lemma migrateInsightsAuthorID_established:
  assumes "migrateInsightsAuthorID db = Inr db'"
  shows "established db' (AlterTableAddColumn ''insights'' (col ''author_id'' ''TEXT''))
         \<and> (\<forall>st. established db st \<longrightarrow> established db' st)"
proof (cases "0 < count_columns db ''insights'' ''author_id''")
  case True
  with assms show ?thesis by (simp add: migrateInsightsAuthorID_def col_def)
next
  case False
  with assms obtain db1 where
    e1: "exec db (AlterTableAddColumn ''insights'' (col ''author_id'' ''TEXT'')) = Inr db1" and
    e2: "exec db1 (index_on ''idx_insights_author_id'' ''insights'' ''author_id'') = Inr db'"
    unfolding migrateInsightsAuthorID_def by (auto simp del: exec.simps split: sum.splits)
  from exec_established [OF e1] exec_monotone [OF e1] exec_monotone [OF e2]
  show ?thesis by blast
qed

lemma migrateInsightsEndorsedBy_established:
  assumes "migrateInsightsEndorsedBy db = Inr db'"
  shows "established db' (AlterTableAddColumn ''insights'' endorsed_by_column)
         \<and> (\<forall>st. established db st \<longrightarrow> established db' st)"
proof (cases "0 < count_columns db ''insights'' ''endorsed_by''")
  case True
  with assms show ?thesis by (simp add: migrateInsightsEndorsedBy_def endorsed_by_column_def)
next
  case False
  with assms have
    e1: "exec db (AlterTableAddColumn ''insights'' endorsed_by_column) = Inr db'"
    unfolding migrateInsightsEndorsedBy_def by (auto simp del: exec.simps split: sum.splits)
  from exec_established [OF e1] exec_monotone [OF e1]
  show ?thesis by blast
qed

lemma migrateConfigTable_established:
  assumes "migrateConfigTable db = Inr db'"
  shows "established db' (CreateTableIfNotExists config_table)
         \<and> (\<forall>st. established db st \<longrightarrow> established db' st)"
proof -
  from assms have e1: "exec db (CreateTableIfNotExists config_table) = Inr db'"
    unfolding migrateConfigTable_def by (auto simp del: exec.simps split: sum.splits)
  from exec_established [OF e1] exec_monotone [OF e1]
  show ?thesis by blast
qed

lemma RunMigrations_established:
  assumes "RunMigrations db = Inr db'"
  shows "\<forall>st\<in>set migration_statements. established db' st"
proof -
  from assms obtain db1 db2 db3 where
    r1: "migrateInitialSchema db = Inr db1" and
    r2: "migrateInsightsAuthorID db1 = Inr db2" and
    r3: "migrateInsightsEndorsedBy db2 = Inr db3" and
    r4: "migrateConfigTable db3 = Inr db'"
    unfolding RunMigrations_def migrationsList_def by (auto split: sum.splits)
  note a = migrateInitialSchema_established [OF r1]
    and b = migrateInsightsAuthorID_established [OF r2]
    and c = migrateInsightsEndorsedBy_established [OF r3]
    and d = migrateConfigTable_established [OF r4]
  have "\<forall>st\<in>set ([CreateTableIfNotExists threads_table, CreateTableIfNotExists insights_table,
                       CreateTableIfNotExists dependencies_table] @ indexes). established db' st"
    using a b c d by blast
  moreover have "established db' (AlterTableAddColumn ''insights'' (col ''author_id'' ''TEXT''))"
    using b c d by blast
  moreover have "established db' (AlterTableAddColumn ''insights'' endorsed_by_column)"
    using c d by blast
  moreover have "established db' (CreateTableIfNotExists config_table)"
    using d by blast
  ultimately show ?thesis
    unfolding migration_statements_def by (simp only: set_append ball_Un) simp
qed

lemma RunMigrations_noop:
  assumes "\<forall>st\<in>set migration_statements. established db st"
  shows "RunMigrations db = Inr db"
proof -
  have 1: "migrateInitialSchema db = Inr db"
    using assms by (intro migrateInitialSchema_noop) (simp add: migration_statements_def)
  have 2: "migrateInsightsAuthorID db = Inr db"
    using assms by (simp add: migrateInsightsAuthorID_def migration_statements_def col_def)
  have 3: "migrateInsightsEndorsedBy db = Inr db"
    using assms by (simp add: migrateInsightsEndorsedBy_def migration_statements_def endorsed_by_column_def)
  have 4: "migrateConfigTable db = Inr db"
    using assms by (simp add: migrateConfigTable_def migration_statements_def exec_noop)
  show ?thesis
    by (simp add: RunMigrations_def migrationsList_def 1 2 3 4)
qed

lemma RunMigrations_fresh: "RunMigrations empty_database = Inr migrated_database"
  by (simp add: RunMigrations_def migrationsList_def migrateInitialSchema_def
      migrateInsightsAuthorID_def migrateInsightsEndorsedBy_def migrateConfigTable_def
      empty_database_def migrated_database_def indexes_def index_on_def trigger_on_def
      threads_table_def insights_table_def dependencies_table_def insights_fts_table_def
      config_table_def col_def endorsed_by_column_def find_table_def has_index_def has_trigger_def count_columns_def)

text \<open>
  C6. On a database without tables the migrator succeeds; and whenever a run of the
  migrator succeeds, on any database, a second run on the database it leaves succeeds as
  well and leaves the schema as the first run left it: every step finds its change in
  place and does nothing.
\<close>

theorem RunMigrations_idempotent:
  "(\<exists>db1. RunMigrations empty_database = Inr db1)
   \<and> (RunMigrations db = Inr db' \<longrightarrow> RunMigrations db' = Inr db')"
  using RunMigrations_fresh RunMigrations_established RunMigrations_noop by blast

theorem RunMigrations_idempotent_witness:
  "RunMigrations empty_database = Inr migrated_database
   \<and> RunMigrations migrated_database = Inr migrated_database"
  using RunMigrations_idempotent [of empty_database migrated_database] RunMigrations_fresh
  by simp

section \<open>Properties of the log codec\<close>

lemma ScanLines_Nil [simp]: "ScanLines [] = ([], None)"
  by (simp add: ScanLines.simps)


lemma ScanLines_too_long:
  assumes "MaxScanTokenSize \<le> length (takeWhile (\<lambda>c. c \<noteq> newline) data)"
  shows "ScanLines data = ([], Some ErrTooLong)"
proof -
  from assms have "data \<noteq> []" by (auto simp: MaxScanTokenSize_def)
  then show ?thesis
    by (subst ScanLines.simps) (use assms in \<open>simp add: Let_def\<close>)
qed

lemma dropCR_one_line: "one_line s \<Longrightarrow> dropCR s = s"
  by (simp add: one_line_def dropCR_def)





lemma ScanLines_long_first_line:
  assumes "newline \<notin> set pre" and "newline \<notin> set body"
    and "MaxScanTokenSize \<le> length body"
  shows "ScanLines (pre @ body @ rest) = ([], Some ErrTooLong)"
proof -
  have "takeWhile (\<lambda>c. c \<noteq> newline) ((pre @ body) @ rest)
        = (pre @ body) @ takeWhile (\<lambda>c. c \<noteq> newline) rest"
    by (rule takeWhile_append2) (use assms(1,2) in auto)
  then have "MaxScanTokenSize \<le> length (takeWhile (\<lambda>c. c \<noteq> newline) (pre @ body @ rest))"
    using assms(3) by simp
  then show ?thesis by (rule ScanLines_too_long)
qed

text \<open>
  C5 (where the code departs from it). A log file whose one line is a record with a
  content of 65536 bytes: whatever the decoder, and so also when it decodes every line,
  the import returns no records and the scanner's error, which names no line. The
  scanner's buffer ends the import before the line is handed to the decoder.
\<close>

theorem readJSONL_long_line:
  "readJSONL unmarshal ''insights.jsonl'' (no_files(''insights.jsonl'' := Contents long_record))
   = Inl (ReadFileFailed ''insights.jsonl'' ErrTooLong)"
proof -
  let ?pre = "''{'' @ quote ''id'' @ '':'' @ quote ''ins-0001'' @ '','' @ quote ''content'' @ '':''
              @ [CHR 0x22]"
  have "long_record = ?pre @ replicate 65536 (CHR ''x'') @ ([CHR 0x22] @ ''}'' @ [newline])"
    by (simp add: long_record_def quote_def)
  moreover have "ScanLines (?pre @ replicate 65536 (CHR ''x'') @ ([CHR 0x22] @ ''}'' @ [newline]))
                 = ([], Some ErrTooLong)"
    by (rule ScanLines_long_first_line) (simp_all add: quote_def newline_def MaxScanTokenSize_def)
  ultimately have "ScanLines long_record = ([], Some ErrTooLong)"
    by simp
  then show ?thesis
    by (simp add: readJSONL_def)
qed

subsection \<open>Strings as they are written\<close>

lemma ValidString_written: "ValidString s \<Longrightarrow> written_string s = s"
proof (induction s rule: ValidString.induct)
  case (1 s)
  show ?case
  proof (cases "s = []")
    case True
    then show ?thesis by (simp add: written_string.simps)
  next
    case False
    with "1.prems" have n: "rune_size s \<noteq> 0" and rest: "ValidString (drop (rune_size s) s)"
      by (subst (asm) ValidString.simps, simp split: if_splits)+
    from "1.IH" [OF False n rest] False n show ?thesis
      by (subst written_string.simps) simp
  qed
qed

lemma ValidStrings_written: "ValidStrings v \<Longrightarrow> map_option (map written_string) v = v"
  by (cases v) (auto simp: ValidStrings_def list_all_iff ValidString_written intro: map_idI)




lemma Unmarshal_elems_JStr [simp]: "Unmarshal_elems field (map JStr xs) = Inr xs"
  by (induction xs) auto

subsection \<open>Documents read back\<close>

lemma foldName_tags [simp]:
  "foldName ''id'' = ''id''" "foldName ''timestamp'' = ''timestamp''"
  "foldName ''content'' = ''content''" "foldName ''summary'' = ''summary''"
  "foldName ''type'' = ''type''" "foldName ''confidence'' = ''confidence''"
  "foldName ''source'' = ''source''" "foldName ''thread_id'' = ''thread_id''"
  "foldName ''author_id'' = ''author_id''" "foldName ''endorsed_by'' = ''endorsed_by''"
  "foldName ''labels'' = ''labels''" "foldName ''created_by'' = ''created_by''"
  "foldName ''created_at'' = ''created_at''" "foldName ''ref'' = ''ref''"
  "foldName ''participants'' = ''participants''" "foldName ''title'' = ''title''"
  "foldName ''status'' = ''status''"
  "foldName ''current_understanding'' = ''current_understanding''"
  "foldName ''updated_at'' = ''updated_at''" "foldName ''from'' = ''from''"
  "foldName ''to'' = ''to''"
  by (simp_all add: foldName_def ascii_lower_def)



















text \<open>
  The loop of the import on the scanner's tokens: when every token that is not empty
  decodes, it returns the decoded items in order; otherwise it returns the decode error
  of the first token that fails, with the number of that line.
\<close>

lemma readJSONL_loop_decodes_all:
  assumes "\<forall>l\<in>set tokens. l \<noteq> [] \<longrightarrow> (\<exists>x. unmarshal l = Inr x)"
  shows "readJSONL_loop unmarshal tokens n acc
         = Inr (acc @ map (projr \<circ> unmarshal) (filter (\<lambda>l. l \<noteq> []) tokens))"
  using assms by (induction tokens arbitrary: n acc) auto

lemma readJSONL_loop_first_failure:
  assumes "\<forall>l\<in>set good. l \<noteq> [] \<longrightarrow> (\<exists>x. unmarshal l = Inr x)"
    and "bad \<noteq> []" and "unmarshal bad = Inl e"
  shows "readJSONL_loop unmarshal (good @ bad # rest) n acc
         = Inl (DecodeFailed (n + length good + 1) e)"
  using assms by (induction good arbitrary: n acc) auto

lemma readJSONL_within_buffer:
  assumes "fs filePath = Contents data" and "ScanLines data = (tokens, None)"
  shows "readJSONL unmarshal filePath fs = readJSONL_loop unmarshal tokens 0 []"
  using assms by (simp add: readJSONL_def split: sum.splits)

end
